theory Spec2Isabelle
  imports Complex_Main "HOL-Library.Word" "HOL-Library.Multiset" "HOL-Library.Log_Nat"
begin

section \<open>The Sparkify data-lake ETL (etl.py)\<close>

text \<open>
  The program is a PySpark job: \<open>process_song_data\<close> reads the song catalog and writes the
  \<open>songs\<close> and \<open>artists\<close> tables, \<open>process_log_data\<close> reads the activity log and writes the
  \<open>users\<close>, \<open>time\<close> and \<open>songplays\<close> tables, and \<open>main\<close> runs the two in that order.

  A DataFrame is a list of rows; the order of the list stands for whatever order the engine
  delivers the rows in, and every statement below is about membership and counts, never about
  that order. What Spark leaves to the engine is a parameter of the model: which row of a
  group \<open>dropDuplicates\<close> keeps, which partition a row is placed in, the session time zone,
  the contents of the input files, and which destinations cannot be written.

  Line 135 of etl.py is indented with a tab character where its neighbours use four blanks;
  the model reads it as one more statement of the body of \<open>process_log_data\<close>.
\<close>

subsection \<open>Input rows\<close>

text \<open>
  One JSON object of the song catalog. \<open>'f\<close> is the type of the floating-point columns, which
  the program only copies; \<open>'y\<close> holds the columns the program never names. The two columns of
  the join condition are nullable, since SQL equality on a NULL is not true.
\<close>

record ('f, 'y) song_data =
  song_id :: string
  title :: "string option"
  artist_id :: string
  year :: int
  duration :: 'f
  artist_name :: "string option"
  artist_location :: string
  artist_latitude :: 'f
  artist_longitude :: 'f
  song_rest :: 'y

text \<open>
  One JSON object of the activity log; \<open>ts\<close> is in milliseconds since the epoch. \<open>'x\<close> holds
  the columns the program never names.
\<close>

record 'x log_data =
  page :: "string option"
  userId :: string
  firstName :: string
  lastName :: string
  gender :: string
  level :: string
  ts :: int
  song :: "string option"
  artist :: "string option"
  sessionId :: int
  location :: string
  userAgent :: string
  log_rest :: 'x

subsection \<open>Output rows\<close>

text \<open>The columns of each table keep their names, behind a prefix for the table.\<close>

record 'f songs_row =
  sg_song_id :: string
  sg_title :: "string option"
  sg_artist_id :: string
  sg_year :: int
  sg_duration :: 'f

record 'f artists_row =
  ar_artist_id :: string
  ar_name :: "string option"
  ar_location :: string
  ar_latitude :: 'f
  ar_longitude :: 'f

record users_row =
  us_user_id :: string
  us_first_name :: string
  us_last_name :: string
  us_gender :: string
  us_level :: string

subsection \<open>DataFrame operators\<close>

text \<open>
  \<open>dropDuplicates([key])\<close> groups the rows by the key column and keeps one row of each group.
  Which one is up to the engine: \<open>pick\<close> gives, for a group, the position of the survivor
  (taken modulo the size of the group).
\<close>

definition dropDuplicates :: "('a list \<Rightarrow> nat) \<Rightarrow> ('a \<Rightarrow> 'k) \<Rightarrow> 'a list \<Rightarrow> 'a list" where
  "dropDuplicates pick key df =
     map (\<lambda>k. let g = filter (\<lambda>r. key r = k) df in g ! (pick g mod length g))
         (remdups (map key df))"

subsection \<open>process_song_data: the songs and artists tables\<close>

definition select_songs :: "('f, 'y) song_data \<Rightarrow> 'f songs_row" where
  "select_songs r =
     \<lparr>sg_song_id = song_id r, sg_title = title r, sg_artist_id = artist_id r,
      sg_year = year r, sg_duration = duration r\<rparr>"

definition songs_table :: "('f songs_row list \<Rightarrow> nat) \<Rightarrow> ('f, 'y) song_data list \<Rightarrow> 'f songs_row list" where
  "songs_table pick df = dropDuplicates pick sg_song_id (map select_songs df)"

definition select_artists :: "('f, 'y) song_data \<Rightarrow> 'f artists_row" where
  "select_artists r =
     \<lparr>ar_artist_id = artist_id r, ar_name = artist_name r, ar_location = artist_location r,
      ar_latitude = artist_latitude r, ar_longitude = artist_longitude r\<rparr>"

definition artists_table :: "('f artists_row list \<Rightarrow> nat) \<Rightarrow> ('f, 'y) song_data list \<Rightarrow> 'f artists_row list" where
  "artists_table pick df = dropDuplicates pick ar_artist_id (map select_artists df)"

subsection \<open>SQL conditions\<close>

text \<open>
  A condition on a row is true, false or NULL. \<open>==\<close> on a NULL is NULL, \<open>&\<close> is the
  three-valued conjunction, and \<open>filter\<close> and \<open>join\<close> keep a row only where the condition
  is true.
\<close>

definition sql_eq :: "'a option \<Rightarrow> 'a option \<Rightarrow> bool option" where
  "sql_eq a b = (case a of None \<Rightarrow> None | Some x \<Rightarrow> (case b of None \<Rightarrow> None | Some y \<Rightarrow> Some (x = y)))"

definition sql_and :: "bool option \<Rightarrow> bool option \<Rightarrow> bool option" where
  "sql_and p q =
     (if p = Some False \<or> q = Some False then Some False
      else if p = Some True \<and> q = Some True then Some True
      else None)"

definition sql_filter :: "('a \<Rightarrow> bool option) \<Rightarrow> 'a list \<Rightarrow> 'a list" where
  "sql_filter cond df = filter (\<lambda>r. cond r = Some True) df"

definition inner_join :: "('a \<Rightarrow> 'b \<Rightarrow> bool option) \<Rightarrow> 'a list \<Rightarrow> 'b list \<Rightarrow> ('a \<times> 'b) list" where
  "inner_join on df other =
     concat (map (\<lambda>l. map (Pair l) (filter (\<lambda>s. on l s = Some True) other)) df)"

text \<open>\<open>distinct()\<close> keeps one copy of every row, compared on all of its columns.\<close>

definition distinct_rows :: "'a list \<Rightarrow> 'a list" where
  "distinct_rows df = remdups df"

subsection \<open>Double-precision arithmetic\<close>

text \<open>
  \<open>df.ts/1000\<close> divides a long by a long, which Spark does on doubles, and the cast of the
  quotient to a timestamp multiplies and truncates doubles. A finite double is a rational
  number, and every operation gives the double nearest to the exact result, a tie going to
  the even mantissa: \<open>round_double\<close>, with a mantissa of 53 bits. The range of the exponent
  is left out; the magnitudes that occur here, a long divided by 1000 and that times
  \<open>10^6\<close>, lie between \<open>2^-10\<close> and \<open>2^74\<close>.
\<close>

definition floor_log2 :: "rat \<Rightarrow> int" where
  "floor_log2 y =
     (let (p, q) = quotient_of y; k = bitlen p - bitlen q
      in if y < 2 powi k then k - 1 else k)"

definition round_half_even :: "rat \<Rightarrow> int" where
  "round_half_even y =
     (let f = \<lfloor>y\<rfloor>; r = y - of_int f
      in if r < 1 / 2 then f else if 1 / 2 < r then f + 1 else if even f then f else f + 1)"

definition round_double :: "rat \<Rightarrow> rat" where
  "round_double x =
     (if x = 0 then 0
      else let e = floor_log2 \<bar>x\<bar> - 52
           in sgn x * of_int (round_half_even (\<bar>x\<bar> / 2 powi e)) * 2 powi e)"

definition long_to_double :: "int \<Rightarrow> rat" where
  "long_to_double n = round_double (of_int n)"

text \<open>\<open>toLong\<close> of a double rounds toward zero and stops at the ends of the 64-bit range.\<close>

definition double_to_long :: "rat \<Rightarrow> int" where
  "double_to_long d =
     (let t = (if 0 \<le> d then \<lfloor>d\<rfloor> else \<lceil>d\<rceil>)
      in max (- (2 ^ 63)) (min (2 ^ 63 - 1) t))"

text \<open>\<open>a / b\<close> on two long columns, \<open>b\<close> not zero: both are made doubles and divided.\<close>

definition divide_long :: "int \<Rightarrow> int \<Rightarrow> rat" where
  "divide_long a b = round_double (long_to_double a / long_to_double b)"

subsection \<open>Timestamps and dates\<close>

text \<open>
  A Spark timestamp is a count of microseconds since the epoch and a date a count of days
  since 1970-01-01. The session time zone is whatever the engine is configured with (the
  program sets none); it is modelled as a fixed offset from UTC, \<open>tz\<close> seconds.

  \<open>to_timestamp\<close> of a double column casts it: \<open>(d * 1000000L).toLong\<close>.
\<close>

definition to_timestamp :: "rat \<Rightarrow> int" where
  "to_timestamp d = double_to_long (round_double (d * long_to_double 1000000))"

text \<open>\<open>to_date\<close> of a timestamp: the local date of the instant in the session time zone.\<close>

definition to_date :: "int \<Rightarrow> int \<Rightarrow> int" where
  "to_date tz t = (t div 1000000 + tz) div 86400"

text \<open>A date used where a timestamp is expected is cast to the midnight that starts it.\<close>

definition date_to_timestamp :: "int \<Rightarrow> int \<Rightarrow> int" where
  "date_to_timestamp tz d = (d * 86400 - tz) * 1000000"

definition hour :: "int \<Rightarrow> int \<Rightarrow> int" where
  "hour tz t = ((t div 1000000 + tz) mod 86400) div 3600"

text \<open>
  The proleptic Gregorian calendar, from a day count: the year, month and day of month,
  with the years counted from 1 March in cycles of 400 years (146097 days).
\<close>

definition civil_from_days :: "int \<Rightarrow> int \<times> int \<times> int" where
  "civil_from_days z0 =
     (let z = z0 + 719468;
          era = z div 146097;
          doe = z mod 146097;
          yoe = (doe - doe div 1460 + doe div 36524 - doe div 146096) div 365;
          doy = doe - (365 * yoe + yoe div 4 - yoe div 100);
          mp = (5 * doy + 2) div 153;
          d = doy - (153 * mp + 2) div 5 + 1;
          m = (if mp < 10 then mp + 3 else mp - 9);
          y = yoe + era * 400 + (if m \<le> 2 then 1 else 0)
      in (y, m, d))"

definition days_from_civil :: "int \<Rightarrow> int \<Rightarrow> int \<Rightarrow> int" where
  "days_from_civil y0 m d =
     (let y = (if m \<le> 2 then y0 - 1 else y0);
          era = y div 400;
          yoe = y mod 400;
          doy = (153 * (if m > 2 then m - 3 else m + 9) + 2) div 5 + d - 1;
          doe = yoe * 365 + yoe div 4 - yoe div 100 + doy
      in era * 146097 + doe - 719468)"

definition year_of :: "int \<Rightarrow> int" where
  "year_of d = fst (civil_from_days d)"

definition month :: "int \<Rightarrow> int" where
  "month d = fst (snd (civil_from_days d))"

definition dayofmonth :: "int \<Rightarrow> int" where
  "dayofmonth d = snd (snd (civil_from_days d))"

text \<open>\<open>dayofweek\<close>: 1 is Sunday, 7 is Saturday; 1970-01-01 was a Thursday.\<close>

definition dayofweek :: "int \<Rightarrow> int" where
  "dayofweek d = (d + 4) mod 7 + 1"

text \<open>
  \<open>weekofyear\<close>: the ISO 8601 week, which starts on Monday and belongs to the year its
  Thursday falls in.
\<close>

definition weekofyear :: "int \<Rightarrow> int" where
  "weekofyear d =
     (let thursday = d - (d + 3) mod 7 + 3
      in (thursday - days_from_civil (year_of thursday) 1 1) div 7 + 1)"

subsection \<open>process_log_data: the users, time and songplays tables\<close>

definition select_users :: "('x, 'm) log_data_scheme \<Rightarrow> users_row" where
  "select_users r =
     \<lparr>us_user_id = userId r, us_first_name = firstName r, us_last_name = lastName r,
      us_gender = gender r, us_level = level r\<rparr>"

definition users_table :: "(users_row list \<Rightarrow> nat) \<Rightarrow> ('x, 'm) log_data_scheme list \<Rightarrow> users_row list" where
  "users_table pick df = dropDuplicates pick us_user_id (map select_users df)"

text \<open>
  The log rows after the two \<open>withColumn\<close> calls: \<open>ts\<close> now holds the timestamp (in
  microseconds) and \<open>dt\<close> is a new column, the date.
\<close>

record 'x log_dt = "'x log_data" +
  dt :: int

definition withColumn_ts_dt :: "int \<Rightarrow> 'x log_data \<Rightarrow> 'x log_dt" where
  "withColumn_ts_dt tz r =
     (let t = to_timestamp (divide_long (ts r) 1000)
      in \<lparr>page = page r, userId = userId r, firstName = firstName r, lastName = lastName r,
          gender = gender r, level = level r, ts = t, song = song r, artist = artist r,
          sessionId = sessionId r, location = location r, userAgent = userAgent r,
          log_rest = log_rest r, dt = to_date tz t\<rparr>)"

record time_row =
  tm_start_time :: int
  tm_dt :: int
  tm_hour :: int
  tm_day :: int
  tm_week :: int
  tm_month :: int
  tm_year :: int
  tm_weekday :: int

definition time_columns :: "int \<Rightarrow> 'x log_dt \<Rightarrow> time_row" where
  "time_columns tz r =
     \<lparr>tm_start_time = ts r, tm_dt = dt r,
      tm_hour = hour tz (date_to_timestamp tz (dt r)),
      tm_day = dayofmonth (dt r),
      tm_week = weekofyear (dt r),
      tm_month = month (dt r),
      tm_year = year_of (dt r),
      tm_weekday = dayofweek (dt r)\<rparr>"

definition time_table :: "int \<Rightarrow> 'x log_dt list \<Rightarrow> time_row list" where
  "time_table tz df = map (time_columns tz) df"

definition join_condition :: "'x log_dt \<Rightarrow> ('f, 'y) song_data \<Rightarrow> bool option" where
  "join_condition l s = sql_and (sql_eq (song l) (title s)) (sql_eq (artist l) (artist_name s))"

text \<open>
  \<open>monotonically_increasing_id\<close> is a 64-bit value: the number of the partition shifted
  left by 33 bits, plus the position of the row within its partition. \<open>part\<close> is the
  partition the engine has placed each row in.
\<close>

definition monotonically_increasing_id :: "nat \<Rightarrow> nat \<Rightarrow> 64 word" where
  "monotonically_increasing_id p i = push_bit 33 (word_of_nat p) + word_of_nat i"

definition withColumn_id :: "('a \<Rightarrow> nat) \<Rightarrow> 'a list \<Rightarrow> (64 word \<times> 'a) list" where
  "withColumn_id part df =
     concat (map (\<lambda>p. map (\<lambda>(i, r). (monotonically_increasing_id p i, r))
                        (enumerate 0 (filter (\<lambda>r. part r = p) df)))
                 (remdups (map part df)))"

record songplays_row =
  sp_songplay_id :: "64 word"
  sp_start_time :: int
  sp_month :: int
  sp_year :: int
  sp_user_id :: string
  sp_level :: string
  sp_song_id :: string
  sp_artist_id :: string
  sp_session_id :: int
  sp_location :: string
  sp_user_agent :: string

definition selectExpr_songplay :: "int \<Rightarrow> 64 word \<times> 'x log_dt \<times> ('f, 'y) song_data \<Rightarrow> songplays_row" where
  "selectExpr_songplay tz = (\<lambda>(i, l, s).
     \<lparr>sp_songplay_id = i, sp_start_time = ts l,
      sp_month = month (to_date tz (ts l)), sp_year = year_of (to_date tz (ts l)),
      sp_user_id = userId l, sp_level = level l,
      sp_song_id = song_id s, sp_artist_id = artist_id s,
      sp_session_id = sessionId l, sp_location = location l, sp_user_agent = userAgent l\<rparr>)"

definition joined_df :: "'x log_dt list \<Rightarrow> ('f, 'y) song_data list \<Rightarrow> ('x log_dt \<times> ('f, 'y) song_data) list" where
  "joined_df df song_df = inner_join join_condition df song_df"

definition songplay_with_id ::
  "('x log_dt \<times> ('f, 'y) song_data \<Rightarrow> nat) \<Rightarrow> 'x log_dt list \<Rightarrow> ('f, 'y) song_data list
     \<Rightarrow> (64 word \<times> 'x log_dt \<times> ('f, 'y) song_data) list" where
  "songplay_with_id part df song_df = withColumn_id part (distinct_rows (joined_df df song_df))"

definition songplay_table ::
  "int \<Rightarrow> ('x log_dt \<times> ('f, 'y) song_data \<Rightarrow> nat) \<Rightarrow> 'x log_dt list \<Rightarrow> ('f, 'y) song_data list
     \<Rightarrow> songplays_row list" where
  "songplay_table tz part df song_df = map (selectExpr_songplay tz) (songplay_with_id part df song_df)"

text \<open>
  The rows of the songplays table that come from one row \<open>l\<close> of the log: the table is a
  projection, row by row, of the joined rows with their ids, and these are the projections
  of the joined rows whose log part is \<open>l\<close>.
\<close>

definition songplays_from ::
  "int \<Rightarrow> ('x log_dt \<times> ('f, 'y) song_data \<Rightarrow> nat) \<Rightarrow> 'x log_dt list \<Rightarrow> ('f, 'y) song_data list
     \<Rightarrow> 'x log_dt \<Rightarrow> songplays_row list" where
  "songplays_from tz part df song_df l =
     map (selectExpr_songplay tz)
       (filter (\<lambda>(i, l', s). l' = l) (songplay_with_id part df song_df))"

subsection \<open>Writing the tables\<close>

text \<open>
  \<open>df.write.mode(m).partitionBy(cols).parquet(path)\<close>. The run keeps the list of the writes
  that have completed, oldest first. A write to a destination that cannot be written raises,
  and whatever raises ends the run: the functions below return the completed writes
  together with the error, if there was one.
\<close>

datatype 'f dataframe =
    Songs "'f songs_row list"
  | Artists "'f artists_row list"
  | Users "users_row list"
  | Time "time_row list"
  | Songplays "songplays_row list"

record 'f written =
  w_path :: string
  w_mode :: string
  w_partitionBy :: "string list"
  w_data :: "'f dataframe"

datatype error = WriteError string

definition parquet :: "(string \<Rightarrow> bool) \<Rightarrow> 'f written \<Rightarrow> 'f written list \<Rightarrow> 'f written list \<times> error option" where
  "parquet unwritable w out =
     (if unwritable (w_path w) then (out, Some (WriteError (w_path w)))
      else (out @ [w], None))"

text \<open>
  \<open>os.path.join(a, *p)\<close> on a POSIX system: a component that starts with a slash replaces
  what came before it, and a slash is put between two components unless the first one is
  empty or already ends with one.
\<close>

fun os_path_join :: "string \<Rightarrow> string list \<Rightarrow> string" where
  "os_path_join a [] = a"
| "os_path_join a (b # p) =
     os_path_join
       (if b \<noteq> [] \<and> hd b = CHR ''/'' then b
        else if a = [] \<or> last a = CHR ''/'' then a @ b
        else a @ ''/'' @ b) p"

subsection \<open>The engine\<close>

record ('f, 'x, 'y) spark =
  read_song_json :: "string \<Rightarrow> ('f, 'y) song_data list"
  read_log_json :: "string \<Rightarrow> 'x log_data list"
  timeZone :: int
  keep_song :: "'f songs_row list \<Rightarrow> nat"
  keep_artist :: "'f artists_row list \<Rightarrow> nat"
  keep_user :: "users_row list \<Rightarrow> nat"
  partition_of :: "'x log_dt \<times> ('f, 'y) song_data \<Rightarrow> nat"
  unwritable :: "string \<Rightarrow> bool"

subsection \<open>The two phases and main\<close>

definition process_song_data ::
  "('f, 'x, 'y) spark \<Rightarrow> string \<Rightarrow> string \<Rightarrow> 'f written list \<Rightarrow> 'f written list \<times> error option" where
  "process_song_data spark input_data output_data out =
     (let song_data = input_data @ ''song_data/A/A/*/*.json'';
          df = read_song_json spark song_data;
          songs = songs_table (keep_song spark) df;
          (out1, err1) = parquet (unwritable spark)
             \<lparr>w_path = os_path_join output_data [''songs_table'', ''songs_table.parquet''],
              w_mode = ''overwrite'', w_partitionBy = [''year'', ''artist_id''],
              w_data = Songs songs\<rparr> out
      in case err1 of
           Some e \<Rightarrow> (out1, Some e)
         | None \<Rightarrow>
             (let artists = artists_table (keep_artist spark) df
              in parquet (unwritable spark)
                   \<lparr>w_path = os_path_join output_data [''artists_table'', ''artists_table.parquet''],
                    w_mode = ''overwrite'', w_partitionBy = [],
                    w_data = Artists artists\<rparr> out1))"

definition log_df :: "('f, 'x, 'y) spark \<Rightarrow> string \<Rightarrow> 'x log_data list" where
  "log_df spark input_data =
     sql_filter (\<lambda>r. sql_eq (page r) (Some ''NextSong''))
       (read_log_json spark (input_data @ ''log_data/*/*/*.json''))"

text \<open>\<open>df\<close> after lines 123 and 124 have replaced \<open>ts\<close> and added \<open>dt\<close>.\<close>

definition log_df_dt :: "('f, 'x, 'y) spark \<Rightarrow> string \<Rightarrow> 'x log_dt list" where
  "log_df_dt spark input_data = map (withColumn_ts_dt (timeZone spark)) (log_df spark input_data)"

definition process_log_data ::
  "('f, 'x, 'y) spark \<Rightarrow> string \<Rightarrow> string \<Rightarrow> 'f written list \<Rightarrow> 'f written list \<times> error option" where
  "process_log_data spark input_data output_data out =
     (let df = log_df spark input_data;
          users = users_table (keep_user spark) df;
          (out1, err1) = parquet (unwritable spark)
             \<lparr>w_path = os_path_join output_data [''users_table'', ''users_table.parquet''],
              w_mode = ''overwrite'', w_partitionBy = [],
              w_data = Users users\<rparr> out
      in case err1 of
           Some e \<Rightarrow> (out1, Some e)
         | None \<Rightarrow>
             (let df = log_df_dt spark input_data;
                  times = time_table (timeZone spark) df;
                  (out2, err2) = parquet (unwritable spark)
                     \<lparr>w_path = os_path_join output_data [''time_table'', ''time.parquet''],
                      w_mode = ''overwrite'', w_partitionBy = [''year'', ''month''],
                      w_data = Time times\<rparr> out1
              in case err2 of
                   Some e \<Rightarrow> (out2, Some e)
                 | None \<Rightarrow>
                     (let song_df = read_song_json spark (input_data @ ''song_data/A/A/*/*.json'');
                          songplays = songplay_table (timeZone spark) (partition_of spark) df song_df
                      in parquet (unwritable spark)
                           \<lparr>w_path = os_path_join output_data [''songplays_table'', ''songsplay.parquet''],
                            w_mode = ''overwrite'', w_partitionBy = [''year'', ''month''],
                            w_data = Songplays songplays\<rparr> out2)))"

definition main :: "('f, 'x, 'y) spark \<Rightarrow> 'f written list \<times> error option" where
  "main spark =
     (let input_data = ''s3a://udacity-dend/'';
          output_data = ''s3a://dend-cda/output/'';
          (out1, err1) = process_song_data spark input_data output_data []
      in case err1 of
           Some e \<Rightarrow> (out1, Some e)
         | None \<Rightarrow> process_log_data spark input_data output_data out1)"

subsection \<open>The run, as the specification words it\<close>

text \<open>The table a written DataFrame belongs to.\<close>

fun table_name :: "'f dataframe \<Rightarrow> string" where
  "table_name (Songs rows) = ''songs''"
| "table_name (Artists rows) = ''artists''"
| "table_name (Users rows) = ''users''"
| "table_name (Time rows) = ''time''"
| "table_name (Songplays rows) = ''songplays''"

text \<open>
  The path convention of the specification: under the output root, a directory for the
  table and in it a directory of the same name with the extension \<open>.parquet\<close>.
\<close>

definition convention_path :: "string \<Rightarrow> string \<Rightarrow> string" where
  "convention_path output_root table_dir = os_path_join output_root [table_dir, table_dir @ ''.parquet'']"

text \<open>
  The five writes of a run, in the order songs, artists, users, time, songplays, and a run
  that performs a list of writes one after the other and stops at the first that fails.
  \<open>main\<close> is shown below to be such a run.
\<close>

definition song_writes :: "('f, 'x, 'y) spark \<Rightarrow> string \<Rightarrow> string \<Rightarrow> 'f written list" where
  "song_writes spark input_data output_data =
     [\<lparr>w_path = os_path_join output_data [''songs_table'', ''songs_table.parquet''],
       w_mode = ''overwrite'', w_partitionBy = [''year'', ''artist_id''],
       w_data = Songs (songs_table (keep_song spark)
                  (read_song_json spark (input_data @ ''song_data/A/A/*/*.json'')))\<rparr>,
      \<lparr>w_path = os_path_join output_data [''artists_table'', ''artists_table.parquet''],
       w_mode = ''overwrite'', w_partitionBy = [],
       w_data = Artists (artists_table (keep_artist spark)
                  (read_song_json spark (input_data @ ''song_data/A/A/*/*.json'')))\<rparr>]"

definition log_writes :: "('f, 'x, 'y) spark \<Rightarrow> string \<Rightarrow> string \<Rightarrow> 'f written list" where
  "log_writes spark input_data output_data =
     [\<lparr>w_path = os_path_join output_data [''users_table'', ''users_table.parquet''],
       w_mode = ''overwrite'', w_partitionBy = [],
       w_data = Users (users_table (keep_user spark) (log_df spark input_data))\<rparr>,
      \<lparr>w_path = os_path_join output_data [''time_table'', ''time.parquet''],
       w_mode = ''overwrite'', w_partitionBy = [''year'', ''month''],
       w_data = Time (time_table (timeZone spark) (log_df_dt spark input_data))\<rparr>,
      \<lparr>w_path = os_path_join output_data [''songplays_table'', ''songsplay.parquet''],
       w_mode = ''overwrite'', w_partitionBy = [''year'', ''month''],
       w_data = Songplays (songplay_table (timeZone spark) (partition_of spark)
                  (log_df_dt spark input_data)
                  (read_song_json spark (input_data @ ''song_data/A/A/*/*.json'')))\<rparr>]"

definition tables_in_order :: "('f, 'x, 'y) spark \<Rightarrow> 'f written list" where
  "tables_in_order spark =
     song_writes spark ''s3a://udacity-dend/'' ''s3a://dend-cda/output/''
     @ log_writes spark ''s3a://udacity-dend/'' ''s3a://dend-cda/output/''"

fun write_all :: "(string \<Rightarrow> bool) \<Rightarrow> 'f written list \<Rightarrow> 'f written list \<Rightarrow> 'f written list \<times> error option" where
  "write_all u [] out = (out, None)"
| "write_all u (w # ws) out =
     (if u (w_path w) then (out, Some (WriteError (w_path w))) else write_all u ws (out @ [w]))"

section \<open>Example inputs\<close>

text \<open>A catalog in which two records share the song_id \<open>S1\<close> and differ in title and year.\<close>

definition catalog_dup :: "(real, unit) song_data list" where
  "catalog_dup =
     [\<lparr>song_id = ''S1'', title = Some ''Helix'', artist_id = ''A1'', year = 2001, duration = 200,
       artist_name = Some ''Orbit'', artist_location = ''NY'', artist_latitude = 40,
       artist_longitude = -74, song_rest = ()\<rparr>,
      \<lparr>song_id = ''S1'', title = Some ''Helix (live)'', artist_id = ''A1'', year = 2003, duration = 250,
       artist_name = Some ''Orbit'', artist_location = ''NY'', artist_latitude = 40,
       artist_longitude = -74, song_rest = ()\<rparr>]"

text \<open>
  The scenario of the specification: a catalog of one song, a play of that song, and a play
  whose artist differs from the catalog's in the case of one letter.
\<close>

definition catalog_helix :: "(real, unit) song_data list" where
  "catalog_helix =
     [\<lparr>song_id = ''S1'', title = Some ''Helix'', artist_id = ''A1'', year = 2001, duration = 200,
       artist_name = Some ''Orbit'', artist_location = ''NY'', artist_latitude = 40,
       artist_longitude = -74, song_rest = ()\<rparr>]"

definition play_helix :: "unit log_data" where
  "play_helix =
     \<lparr>page = Some ''NextSong'', userId = ''42'', firstName = ''Ada'', lastName = ''Lee'',
      gender = ''F'', level = ''free'', ts = 1541121934796, song = Some ''Helix'',
      artist = Some ''Orbit'', sessionId = 7, location = ''NY'', userAgent = ''UA1'',
      log_rest = ()\<rparr>"

definition play_mismatch :: "unit log_data" where
  "play_mismatch = play_helix\<lparr>artist := Some ''orbit''\<rparr>"

definition spark_helix :: "(real, unit, unit) spark" where
  "spark_helix =
     \<lparr>read_song_json = (\<lambda>p. if p = ''s3a://udacity-dend/song_data/A/A/*/*.json'' then catalog_helix else []),
      read_log_json = (\<lambda>p. if p = ''s3a://udacity-dend/log_data/*/*/*.json'' then [play_helix, play_mismatch] else []),
      timeZone = 0, keep_song = (\<lambda>g. 0), keep_artist = (\<lambda>g. 0), keep_user = (\<lambda>g. 0),
      partition_of = (\<lambda>r. 0), unwritable = (\<lambda>p. False)\<rparr>"

text \<open>A catalog with the same title and artist name under two song_ids.\<close>

definition catalog_reissue :: "(real, unit) song_data list" where
  "catalog_reissue =
     [\<lparr>song_id = ''S1'', title = Some ''Helix'', artist_id = ''A1'', year = 2001, duration = 200,
       artist_name = Some ''Orbit'', artist_location = ''NY'', artist_latitude = 40,
       artist_longitude = -74, song_rest = ()\<rparr>,
      \<lparr>song_id = ''S2'', title = Some ''Helix'', artist_id = ''A1'', year = 2003, duration = 200,
       artist_name = Some ''Orbit'', artist_location = ''NY'', artist_latitude = 40,
       artist_longitude = -74, song_rest = ()\<rparr>]"

definition spark_reissue :: "(real, unit, unit) spark" where
  "spark_reissue = spark_helix\<lparr>read_song_json :=
      (\<lambda>p. if p = ''s3a://udacity-dend/song_data/A/A/*/*.json'' then catalog_reissue else [])\<rparr>"

text \<open>An engine that places the joined rows of the two versions in two partitions.\<close>

definition spark_two_partitions :: "(real, unit, unit) spark" where
  "spark_two_partitions = spark_reissue\<lparr>partition_of := (\<lambda>(l, s). if song_id s = ''S1'' then 1 else 0)\<rparr>"

text \<open>
  A log in which two plays share their timestamp, with a visit of the home page between
  them.
\<close>

definition home_page :: "unit log_data" where
  "home_page = play_helix\<lparr>page := Some ''Home'', song := None, artist := None\<rparr>"

definition spark_same_instant :: "(real, unit, unit) spark" where
  "spark_same_instant = spark_helix\<lparr>read_log_json :=
      (\<lambda>p. if p = ''s3a://udacity-dend/log_data/*/*/*.json''
           then [play_helix, home_page, play_helix\<lparr>userId := ''43'', sessionId := 8\<rparr>] else [])\<rparr>"

text \<open>An engine under which the destination of the time table cannot be written.\<close>

definition spark_time_unwritable :: "(real, unit, unit) spark" where
  "spark_time_unwritable =
     spark_helix\<lparr>unwritable := (\<lambda>p. p = ''s3a://dend-cda/output/time_table/time.parquet'')\<rparr>"

section \<open>Properties\<close>

subsection \<open>Double-precision arithmetic\<close>















lemma timestamp_helix: "to_timestamp (divide_long 1541121934796 1000) = 1541121934796000"
  by code_simp

lemma timestamp_rounded_down:
  "to_timestamp (divide_long 1001 1000) = 1000999"
  "to_timestamp (divide_long 1073748588906 1000) = 1073748588905999"
  "to_timestamp (divide_long 9223372036854775807 1000) = 9223372036854775807"
  by code_simp+

subsection \<open>dropDuplicates\<close>

lemma dropDuplicates_keys: "map key (dropDuplicates pick key df) = remdups (map key df)"
proof -
  have "key ((filter (\<lambda>r. key r = k) df) ! (pick (filter (\<lambda>r. key r = k) df) mod length (filter (\<lambda>r. key r = k) df))) = k"
    if "k \<in> set (map key df)" for k
  proof -
    let ?g = "filter (\<lambda>r. key r = k) df"
    from that have "?g \<noteq> []" by (auto simp: filter_empty_conv)
    then have "pick ?g mod length ?g < length ?g" by simp
    then have "?g ! (pick ?g mod length ?g) \<in> set ?g" by (rule nth_mem)
    then show ?thesis by simp
  qed
  then have "map (key \<circ> (\<lambda>k. let g = filter (\<lambda>r. key r = k) df in g ! (pick g mod length g))) (remdups (map key df))
      = map (\<lambda>k. k) (remdups (map key df))"
    by (intro map_cong) (auto simp: Let_def)
  then show ?thesis by (simp add: dropDuplicates_def)
qed

lemma dropDuplicates_subset: "set (dropDuplicates pick key df) \<subseteq> set df"
proof
  fix r assume "r \<in> set (dropDuplicates pick key df)"
  then obtain k where k: "k \<in> set (map key df)"
    and r: "r = (filter (\<lambda>r. key r = k) df) ! (pick (filter (\<lambda>r. key r = k) df) mod length (filter (\<lambda>r. key r = k) df))"
    by (auto simp: dropDuplicates_def Let_def)
  let ?g = "filter (\<lambda>r. key r = k) df"
  from k have "?g \<noteq> []" by (auto simp: filter_empty_conv)
  then have "pick ?g mod length ?g < length ?g" by simp
  then have "?g ! (pick ?g mod length ?g) \<in> set ?g" by (rule nth_mem)
  with r show "r \<in> set df" by simp
qed

lemma filter_key_singleton:
  assumes "distinct (map key xs)" and "k \<in> key ` set xs"
  shows "\<exists>r. filter (\<lambda>r. key r = k) xs = [r]"
  using assms
proof (induction xs)
  case Nil
  then show ?case by simp
next
  case (Cons x xs)
  show ?case
  proof (cases "key x = k")
    case True
    from Cons.prems(1) have "key x \<notin> key ` set xs" by simp
    with True have "\<forall>r\<in>set xs. key r \<noteq> k" by blast
    then have "filter (\<lambda>r. key r = k) xs = []" by (simp add: filter_empty_conv)
    with True show ?thesis by simp
  next
    case False
    with Cons show ?thesis by auto
  qed
qed

lemma dropDuplicates_one_per_key:
  assumes "k \<in> key ` set df"
  shows "\<exists>r. filter (\<lambda>r. key r = k) (dropDuplicates pick key df) = [r] \<and> r \<in> set df \<and> key r = k"
proof -
  have d: "distinct (map key (dropDuplicates pick key df))"
    by (simp add: dropDuplicates_keys)
  have "key ` set (dropDuplicates pick key df) = key ` set df"
    using dropDuplicates_keys [of key pick df] by (metis set_map set_remdups)
  with assms have "k \<in> key ` set (dropDuplicates pick key df)" by simp
  from filter_key_singleton [OF d this] obtain r
    where r: "filter (\<lambda>r. key r = k) (dropDuplicates pick key df) = [r]" by blast
  then have "r \<in> set (filter (\<lambda>r. key r = k) (dropDuplicates pick key df))" by simp
  then have "r \<in> set (dropDuplicates pick key df)" and "key r = k" by auto
  with r dropDuplicates_subset [of pick key df] show ?thesis by blast
qed

lemma position_of_member:
  "x \<in> set g \<Longrightarrow> length (takeWhile (\<lambda>r. r \<noteq> x) g) < length g
     \<and> g ! length (takeWhile (\<lambda>r. r \<noteq> x) g) = x"
  by (induction g) auto

lemma dropDuplicates_any_survivor:
  assumes "x \<in> set df"
  shows "\<exists>pick. x \<in> set (dropDuplicates pick key df)"
proof -
  define pick where "pick = (\<lambda>g. length (takeWhile (\<lambda>r. r \<noteq> x) g))"
  let ?g = "filter (\<lambda>r. key r = key x) df"
  from assms have xg: "x \<in> set ?g" by simp
  from position_of_member [OF xg] have lt: "pick ?g < length ?g" and at: "?g ! pick ?g = x"
    unfolding pick_def by blast+
  from lt at have eq: "?g ! (pick ?g mod length ?g) = x" by simp
  from assms have mem: "key x \<in> set (remdups (map key df))" by simp
  have "x \<in> (\<lambda>k. let g = filter (\<lambda>r. key r = k) df in g ! (pick g mod length g)) ` set (remdups (map key df))"
    by (rule image_eqI [OF _ mem]) (simp add: Let_def eq)
  then have "x \<in> set (dropDuplicates pick key df)"
    by (simp add: dropDuplicates_def)
  then show ?thesis by blast
qed

subsection \<open>The songs table\<close>

text \<open>
  C4. Whatever the song records and whichever row the engine keeps of a group, every song_id
  that occurs in the input has exactly one row in the songs table, and that row is the
  projection of one of the input records with that song_id. Which one is not fixed: for every
  input record there is a choice of the engine under which its projection is in the table.
\<close>

theorem songs_one_row_per_song_id:
  assumes "sid \<in> song_id ` set df"
  shows "(\<exists>r. filter (\<lambda>r. sg_song_id r = sid) (songs_table pick df) = [r]
              \<and> r \<in> select_songs ` {x \<in> set df. song_id x = sid})
         \<and> (\<forall>x \<in> set df. \<exists>pick'. select_songs x \<in> set (songs_table pick' df))"
proof
  from assms have "sid \<in> sg_song_id ` set (map select_songs df)"
    by (force simp: select_songs_def)
  from dropDuplicates_one_per_key [OF this, of pick] obtain r where
    r: "filter (\<lambda>r. sg_song_id r = sid) (songs_table pick df) = [r]"
       "r \<in> set (map select_songs df)" "sg_song_id r = sid"
    unfolding songs_table_def by blast
  from r(2,3) have "r \<in> select_songs ` {x \<in> set df. song_id x = sid}"
    by (auto simp: select_songs_def)
  with r(1) show "\<exists>r. filter (\<lambda>r. sg_song_id r = sid) (songs_table pick df) = [r]
              \<and> r \<in> select_songs ` {x \<in> set df. song_id x = sid}" by blast
next
  show "\<forall>x \<in> set df. \<exists>pick'. select_songs x \<in> set (songs_table pick' df)"
  proof
    fix x assume "x \<in> set df"
    then have "select_songs x \<in> set (map select_songs df)" by simp
    from dropDuplicates_any_survivor [OF this]
    show "\<exists>pick'. select_songs x \<in> set (songs_table pick' df)"
      unfolding songs_table_def .
  qed
qed

theorem songs_one_row_per_song_id_witness:
  "''S1'' \<in> song_id ` set catalog_dup
   \<and> (\<exists>r. filter (\<lambda>r. sg_song_id r = ''S1'') (songs_table (\<lambda>g. 1) catalog_dup) = [r]
              \<and> r \<in> select_songs ` {x \<in> set catalog_dup. song_id x = ''S1''})
   \<and> (\<exists>pick'. select_songs (catalog_dup ! 0) \<in> set (songs_table pick' catalog_dup))
   \<and> (\<exists>pick'. select_songs (catalog_dup ! 1) \<in> set (songs_table pick' catalog_dup))"
proof -
  have h: "''S1'' \<in> song_id ` set catalog_dup" by (simp add: catalog_dup_def)
  have m: "catalog_dup ! 0 \<in> set catalog_dup" "catalog_dup ! 1 \<in> set catalog_dup"
    by (simp_all add: catalog_dup_def)
  from h m songs_one_row_per_song_id [OF h, of "\<lambda>g. 1"] show ?thesis by blast
qed

subsection \<open>The phases as sequences of writes\<close>

lemma write_all_append:
  "write_all u (xs @ ys) out =
     (case write_all u xs out of (out1, Some e) \<Rightarrow> (out1, Some e) | (out1, None) \<Rightarrow> write_all u ys out1)"
  by (induction xs arbitrary: out) simp_all

lemma write_all_takeWhile:
  "write_all u ws out =
     (out @ takeWhile (\<lambda>w. \<not> u (w_path w)) ws,
      case dropWhile (\<lambda>w. \<not> u (w_path w)) ws of [] \<Rightarrow> None | w # ws' \<Rightarrow> Some (WriteError (w_path w)))"
  by (induction ws arbitrary: out) simp_all

lemma process_song_data_write_all:
  "process_song_data spark input_data output_data out
     = write_all (unwritable spark) (song_writes spark input_data output_data) out"
  by (simp add: process_song_data_def song_writes_def parquet_def Let_def)

lemma process_log_data_write_all:
  "process_log_data spark input_data output_data out
     = write_all (unwritable spark) (log_writes spark input_data output_data) out"
  by (simp add: process_log_data_def log_writes_def parquet_def Let_def)

subsection \<open>The join\<close>

lemma mset_concat_filter_keys:
  "distinct ps \<Longrightarrow>
   mset (concat (map (\<lambda>p. filter (\<lambda>r. f r = p) xs) ps)) = filter_mset (\<lambda>r. f r \<in> set ps) (mset xs)"
proof (induction ps)
  case Nil
  then show ?case by simp
next
  case (Cons p ps)
  have "filter_mset (\<lambda>r. f r = p \<or> f r \<in> set ps) (mset xs)
      = filter_mset (\<lambda>r. f r = p) (mset xs) + filter_mset (\<lambda>r. f r \<in> set ps) (mset xs)"
    using Cons.prems by (induction xs) auto
  with Cons show ?case by simp
qed

lemma map_snd_withColumn_id:
  "map snd (withColumn_id part df)
     = concat (map (\<lambda>p. filter (\<lambda>r. part r = p) df) (remdups (map part df)))"
proof -
  have "map snd (map (\<lambda>(i, r). (monotonically_increasing_id p i, r)) (enumerate 0 xs)) = xs" for p and xs :: "'a list"
    by (simp add: case_prod_unfold comp_def map_snd_enumerate)
  then show ?thesis
    by (simp add: withColumn_id_def map_concat comp_def)
qed

lemma mset_withColumn_id: "mset (map snd (withColumn_id part df)) = mset df"
proof -
  have "filter_mset (\<lambda>r. part r \<in> set (remdups (map part df))) (mset df)
      = filter_mset (\<lambda>r. True) (mset df)"
    by (rule filter_mset_cong) auto
  then have "filter_mset (\<lambda>r. part r \<in> set (remdups (map part df))) (mset df) = mset df"
    by simp
  then show ?thesis
    by (simp add: map_snd_withColumn_id mset_concat_filter_keys)
qed

lemma set_joined_df:
  "set (joined_df df song_df)
     = {(l, s). l \<in> set df \<and> s \<in> set song_df \<and> join_condition l s = Some True}"
  by (auto simp: joined_df_def inner_join_def)

lemma join_condition_iff:
  "join_condition l s = Some True
     \<longleftrightarrow> (\<exists>a b. song l = Some a \<and> title s = Some a \<and> artist l = Some b \<and> artist_name s = Some b)"
  by (auto simp: join_condition_def sql_and_def sql_eq_def split: option.splits)


lemma set_withColumn_id: "set (map snd (withColumn_id part df)) = set df"
  using mset_withColumn_id [of part df] by (rule mset_eq_setD)

lemma distinct_withColumn_id: "distinct (map snd (withColumn_id part df)) = distinct df"
  using mset_withColumn_id [of part df] by (rule mset_eq_imp_distinct_iff)

lemma length_withColumn_id: "length (withColumn_id part df) = length df"
  using mset_eq_length [OF mset_withColumn_id [of part df]] by simp

lemma rows_from_log_row:
  "distinct (map snd (filter (\<lambda>(i, l', s). l' = l) (songplay_with_id part df song_df)))
   \<and> set (map snd (filter (\<lambda>(i, l', s). l' = l) (songplay_with_id part df song_df)))
       = (if l \<in> set df then Pair l ` {s \<in> set song_df. join_condition l s = Some True} else {})"
proof -
  let ?W = "songplay_with_id part df song_df"
  let ?J = "joined_df df song_df"
  have eq: "map snd (filter (\<lambda>(i, l', s). l' = l) ?W) = filter (\<lambda>(l', s). l' = l) (map snd ?W)"
    by (simp add: filter_map comp_def case_prod_unfold)
  have d: "distinct (map snd ?W)"
    unfolding songplay_with_id_def distinct_rows_def by (simp only: distinct_withColumn_id distinct_remdups)
  have s: "set (map snd ?W) = set ?J"
    unfolding songplay_with_id_def distinct_rows_def by (simp only: set_withColumn_id set_remdups)
  from d have "distinct (filter (\<lambda>(l', s). l' = l) (map snd ?W))" by (rule distinct_filter)
  moreover have "set (filter (\<lambda>(l', s). l' = l) (map snd ?W))
       = (if l \<in> set df then Pair l ` {s \<in> set song_df. join_condition l s = Some True} else {})"
    unfolding set_filter s set_joined_df by auto
  ultimately show ?thesis unfolding eq by blast
qed

lemma songplays_from_none:
  assumes "\<forall>s\<in>set song_df. join_condition l s \<noteq> Some True"
  shows "songplays_from tz part df song_df l = []"
proof -
  from assms have "{s \<in> set song_df. join_condition l s = Some True} = {}" by blast
  with rows_from_log_row [of l part df song_df]
  have "set (map snd (filter (\<lambda>(i, l', s). l' = l) (songplay_with_id part df song_df))) = {}"
    by (simp split: if_splits)
  then have "filter (\<lambda>(i, l', s). l' = l) (songplay_with_id part df song_df) = []"
    by (simp only: set_empty map_is_Nil_conv)
  then show ?thesis by (simp add: songplays_from_def)
qed

lemma distinct_set_singleton: "distinct xs \<Longrightarrow> set xs = {x} \<Longrightarrow> xs = [x]"
  by (cases xs) (auto simp: insert_eq_iff[symmetric] dest: subset_singletonD)

lemma songplays_from_one:
  assumes "l \<in> set df" and "{s' \<in> set song_df. join_condition l s' = Some True} = {s}"
  shows "\<exists>i. songplays_from tz part df song_df l = [selectExpr_songplay tz (i, l, s)]"
proof -
  let ?F = "filter (\<lambda>(i, l', s). l' = l) (songplay_with_id part df song_df)"
  from assms rows_from_log_row [of l part df song_df]
  have "distinct (map snd ?F)" and "set (map snd ?F) = {(l, s)}" by simp_all
  then have "map snd ?F = [(l, s)]" by (rule distinct_set_singleton)
  then obtain i where "?F = [(i, l, s)]" by (cases ?F) auto
  then have "songplays_from tz part df song_df l = [selectExpr_songplay tz (i, l, s)]"
    by (simp add: songplays_from_def)
  then show ?thesis by blast
qed

lemma length_songplays_from:
  assumes "l \<in> set df"
  shows "length (songplays_from tz part df song_df l)
     = card {s \<in> set song_df. join_condition l s = Some True}"
proof -
  let ?F = "filter (\<lambda>(i, l', s). l' = l) (songplay_with_id part df song_df)"
  have "length (songplays_from tz part df song_df l) = length (map snd ?F)"
    by (simp add: songplays_from_def)
  also have "\<dots> = card (set (map snd ?F))"
  proof -
    from rows_from_log_row [of l part df song_df] have "distinct (map snd ?F)" by (rule conjunct1)
    then show ?thesis by (rule distinct_card [symmetric])
  qed
  also have "\<dots> = card (Pair l ` {s \<in> set song_df. join_condition l s = Some True})"
    using assms rows_from_log_row [of l part df song_df] by simp
  also have "\<dots> = card {s \<in> set song_df. join_condition l s = Some True}"
    by (rule card_image) (simp add: inj_on_def)
  finally show ?thesis .
qed

lemma withColumn_ts_dt_sel:
  "song (withColumn_ts_dt tz e) = song e" "artist (withColumn_ts_dt tz e) = artist e"
  "page (withColumn_ts_dt tz e) = page e" "userId (withColumn_ts_dt tz e) = userId e"
  "level (withColumn_ts_dt tz e) = level e" "sessionId (withColumn_ts_dt tz e) = sessionId e"
  "location (withColumn_ts_dt tz e) = location e" "userAgent (withColumn_ts_dt tz e) = userAgent e"
  "ts (withColumn_ts_dt tz e) = to_timestamp (divide_long (ts e) 1000)"
  "dt (withColumn_ts_dt tz e) = to_date tz (to_timestamp (divide_long (ts e) 1000))"
  by (simp_all add: withColumn_ts_dt_def Let_def)

lemma songplay_table_by_event:
  "mset (songplay_table tz part df song_df)
     = mset (concat (map (songplays_from tz part df song_df) (remdups df)))"
proof -
  let ?W = "songplay_with_id part df song_df"
  let ?f = "\<lambda>x :: 64 word \<times> 'a log_dt \<times> ('b, 'c) song_data. fst (snd x)"
  have "songplays_from tz part df song_df l
      = map (selectExpr_songplay tz) (filter (\<lambda>x. ?f x = l) ?W)" for l
    by (simp add: songplays_from_def case_prod_unfold)
  then have grp: "songplays_from tz part df song_df
      = (\<lambda>l. map (selectExpr_songplay tz) (filter (\<lambda>x. ?f x = l) ?W))"
    by (intro ext)
  have "set (map snd ?W) = set (joined_df df song_df)"
    unfolding songplay_with_id_def distinct_rows_def by (simp only: set_withColumn_id set_remdups)
  then have "snd ` set ?W \<subseteq> {(l, s). l \<in> set df}"
    by (simp only: set_map set_joined_df) blast
  then have mem: "\<forall>x\<in>set ?W. ?f x \<in> set (remdups df)" by auto
  have "mset (concat (map (\<lambda>l. filter (\<lambda>x. ?f x = l) ?W) (remdups df)))
      = filter_mset (\<lambda>x. ?f x \<in> set (remdups df)) (mset ?W)"
    by (rule mset_concat_filter_keys) simp
  also have "\<dots> = filter_mset (\<lambda>x. True) (mset ?W)"
    using mem by (intro filter_mset_cong) simp_all
  finally have "mset (concat (map (\<lambda>l. filter (\<lambda>x. ?f x = l) ?W) (remdups df))) = mset ?W"
    by simp
  then have "image_mset (selectExpr_songplay tz)
        (mset (concat (map (\<lambda>l. filter (\<lambda>x. ?f x = l) ?W) (remdups df))))
      = image_mset (selectExpr_songplay tz) (mset ?W)"
    by (rule arg_cong)
  moreover have "concat (map (songplays_from tz part df song_df) (remdups df))
      = map (selectExpr_songplay tz) (concat (map (\<lambda>l. filter (\<lambda>x. ?f x = l) ?W) (remdups df)))"
    by (simp add: grp map_concat comp_def)
  ultimately show ?thesis by (simp add: songplay_table_def)
qed

lemma process_log_data_completed:
  assumes "snd (process_log_data spark input_data output_data out) = None"
  shows "w_data (last (fst (process_log_data spark input_data output_data out)))
     = Songplays (songplay_table (timeZone spark) (partition_of spark) (log_df_dt spark input_data)
         (read_song_json spark (input_data @ ''song_data/A/A/*/*.json'')))"
proof -
  let ?ws = "log_writes spark input_data output_data"
  let ?P = "\<lambda>w :: 'a written. \<not> unwritable spark (w_path w)"
  from assms have "dropWhile ?P ?ws = []"
    unfolding process_log_data_write_all write_all_takeWhile by (simp split: list.splits)
  then have "takeWhile ?P ?ws = ?ws"
    by (simp only: dropWhile_eq_Nil_conv takeWhile_eq_all_conv)
  then have "fst (process_log_data spark input_data output_data out) = out @ ?ws"
    unfolding process_log_data_write_all write_all_takeWhile by simp
  then show ?thesis
    by (simp add: log_writes_def)
qed

text \<open>
  C1. When process_log_data completes, the songplays table it has written is an inner join
  of the retained log events with the catalog read from the song files, on exact equality
  of song with title and of artist with artist_name. The table consists, row for row, of
  the rows that come from each retained event; a retained event that no catalog record
  matches has none; a retained event that exactly one catalog record matches has exactly
  one, with the event's user_id, level, session_id, location and user_agent and the
  record's song_id and artist_id.
\<close>

theorem songplays_inner_join:
  assumes "snd (process_log_data spark input_data output_data out) = None"
    and "e \<in> set (log_df spark input_data)"
  shows "\<exists>rows. w_data (last (fst (process_log_data spark input_data output_data out))) = Songplays rows
       \<and> mset rows
           = mset (concat (map (songplays_from (timeZone spark) (partition_of spark)
                                  (log_df_dt spark input_data)
                                  (read_song_json spark (input_data @ ''song_data/A/A/*/*.json'')))
                               (remdups (log_df_dt spark input_data))))
       \<and> ((\<forall>s\<in>set (read_song_json spark (input_data @ ''song_data/A/A/*/*.json'')).
               \<not> (\<exists>a b. song e = Some a \<and> title s = Some a
                       \<and> artist e = Some b \<and> artist_name s = Some b)) \<longrightarrow>
            songplays_from (timeZone spark) (partition_of spark) (log_df_dt spark input_data)
              (read_song_json spark (input_data @ ''song_data/A/A/*/*.json''))
              (withColumn_ts_dt (timeZone spark) e) = [])
       \<and> (song e = Some a \<and> artist e = Some b
            \<and> filter (\<lambda>s. title s = Some a \<and> artist_name s = Some b)
                 (read_song_json spark (input_data @ ''song_data/A/A/*/*.json'')) = [s] \<longrightarrow>
            (\<exists>i. songplays_from (timeZone spark) (partition_of spark) (log_df_dt spark input_data)
                    (read_song_json spark (input_data @ ''song_data/A/A/*/*.json''))
                    (withColumn_ts_dt (timeZone spark) e)
                  = [\<lparr>sp_songplay_id = i,
                      sp_start_time = to_timestamp (divide_long (ts e) 1000),
                      sp_month = month (to_date (timeZone spark) (to_timestamp (divide_long (ts e) 1000))),
                      sp_year = year_of (to_date (timeZone spark) (to_timestamp (divide_long (ts e) 1000))),
                      sp_user_id = userId e, sp_level = level e,
                      sp_song_id = song_id s, sp_artist_id = artist_id s,
                      sp_session_id = sessionId e, sp_location = location e,
                      sp_user_agent = userAgent e\<rparr>]))"
proof -
  let ?tz = "timeZone spark"
  let ?part = "partition_of spark"
  let ?df = "log_df_dt spark input_data"
  let ?cat = "read_song_json spark (input_data @ ''song_data/A/A/*/*.json'')"
  let ?l = "withColumn_ts_dt ?tz e"
  have w: "w_data (last (fst (process_log_data spark input_data output_data out)))
      = Songplays (songplay_table ?tz ?part ?df ?cat)"
    using assms(1) by (rule process_log_data_completed)
  have m: "mset (songplay_table ?tz ?part ?df ?cat)
      = mset (concat (map (songplays_from ?tz ?part ?df ?cat) (remdups ?df)))"
    by (rule songplay_table_by_event)
  have n: "(\<forall>s\<in>set ?cat. \<not> (\<exists>a b. song e = Some a \<and> title s = Some a
                       \<and> artist e = Some b \<and> artist_name s = Some b)) \<longrightarrow>
            songplays_from ?tz ?part ?df ?cat ?l = []"
  proof
    assume "\<forall>s\<in>set ?cat. \<not> (\<exists>a b. song e = Some a \<and> title s = Some a
                                   \<and> artist e = Some b \<and> artist_name s = Some b)"
    then have "\<forall>s\<in>set ?cat. join_condition ?l s \<noteq> Some True"
      by (simp add: join_condition_iff withColumn_ts_dt_sel)
    then show "songplays_from ?tz ?part ?df ?cat ?l = []"
      by (rule songplays_from_none)
  qed
  have o: "song e = Some a \<and> artist e = Some b
            \<and> filter (\<lambda>s. title s = Some a \<and> artist_name s = Some b) ?cat = [s] \<longrightarrow>
            (\<exists>i. songplays_from ?tz ?part ?df ?cat ?l
                  = [\<lparr>sp_songplay_id = i,
                      sp_start_time = to_timestamp (divide_long (ts e) 1000),
                      sp_month = month (to_date ?tz (to_timestamp (divide_long (ts e) 1000))),
                      sp_year = year_of (to_date ?tz (to_timestamp (divide_long (ts e) 1000))),
                      sp_user_id = userId e, sp_level = level e,
                      sp_song_id = song_id s, sp_artist_id = artist_id s,
                      sp_session_id = sessionId e, sp_location = location e,
                      sp_user_agent = userAgent e\<rparr>])"
  proof
    assume h: "song e = Some a \<and> artist e = Some b
            \<and> filter (\<lambda>s. title s = Some a \<and> artist_name s = Some b) ?cat = [s]"
    from assms(2) have mem: "?l \<in> set ?df"
      by (simp add: log_df_dt_def)
    from h have "song e = Some a" and "artist e = Some b" by simp_all
    then have "{s' \<in> set ?cat. join_condition ?l s' = Some True}
        = set (filter (\<lambda>s. title s = Some a \<and> artist_name s = Some b) ?cat)"
      by (auto simp: join_condition_iff withColumn_ts_dt_sel)
    with h have "{s' \<in> set ?cat. join_condition ?l s' = Some True} = {s}" by simp
    from songplays_from_one [OF mem this, of ?tz ?part]
    show "\<exists>i. songplays_from ?tz ?part ?df ?cat ?l
                  = [\<lparr>sp_songplay_id = i,
                      sp_start_time = to_timestamp (divide_long (ts e) 1000),
                      sp_month = month (to_date ?tz (to_timestamp (divide_long (ts e) 1000))),
                      sp_year = year_of (to_date ?tz (to_timestamp (divide_long (ts e) 1000))),
                      sp_user_id = userId e, sp_level = level e,
                      sp_song_id = song_id s, sp_artist_id = artist_id s,
                      sp_session_id = sessionId e, sp_location = location e,
                      sp_user_agent = userAgent e\<rparr>]"
      by (simp add: selectExpr_songplay_def withColumn_ts_dt_sel)
  qed
  from w m n o show ?thesis by blast
qed

lemma log_df_spark_helix:
  "log_df spark_helix ''s3a://udacity-dend/'' = [play_helix, play_mismatch]"
  by (simp add: log_df_def spark_helix_def sql_filter_def sql_eq_def play_helix_def play_mismatch_def)

lemma read_song_json_spark_helix:
  "read_song_json spark_helix (''s3a://udacity-dend/'' @ ''song_data/A/A/*/*.json'') = catalog_helix"
  by (simp add: spark_helix_def)

lemma process_log_data_spark_helix:
  "snd (process_log_data spark_helix ''s3a://udacity-dend/'' ''s3a://dend-cda/output/'' []) = None"
proof -
  have h: "\<forall>p. \<not> unwritable spark_helix p" by (simp add: spark_helix_def)
  have d: "dropWhile (\<lambda>w. \<not> unwritable spark_helix (w_path w))
             (log_writes spark_helix ''s3a://udacity-dend/'' ''s3a://dend-cda/output/'') = []"
    using h by simp
  show ?thesis
    unfolding process_log_data_write_all write_all_takeWhile d by simp
qed

lemma remdups_log_df_dt_spark_helix:
  "remdups (log_df_dt spark_helix ''s3a://udacity-dend/'')
     = [withColumn_ts_dt 0 play_helix, withColumn_ts_dt 0 play_mismatch]"
proof -
  have "artist (withColumn_ts_dt 0 play_helix) \<noteq> artist (withColumn_ts_dt 0 play_mismatch)"
    by (simp add: withColumn_ts_dt_sel play_helix_def play_mismatch_def)
  then have "withColumn_ts_dt 0 play_helix \<noteq> withColumn_ts_dt 0 play_mismatch" by auto
  moreover have "timeZone spark_helix = 0" by (simp add: spark_helix_def)
  ultimately show ?thesis
    by (simp add: log_df_dt_def log_df_spark_helix)
qed

theorem songplays_inner_join_witness:
  "snd (process_log_data spark_helix ''s3a://udacity-dend/'' ''s3a://dend-cda/output/'' []) = None
   \<and> log_df spark_helix ''s3a://udacity-dend/'' = [play_helix, play_mismatch]
   \<and> songplays_from 0 (\<lambda>r. 0) (log_df_dt spark_helix ''s3a://udacity-dend/'') catalog_helix
        (withColumn_ts_dt 0 play_mismatch) = []
   \<and> (\<exists>i. w_data (last (fst (process_log_data spark_helix ''s3a://udacity-dend/''
                               ''s3a://dend-cda/output/'' [])))
        = Songplays
           [\<lparr>sp_songplay_id = i, sp_start_time = 1541121934796000,
            sp_month = 11, sp_year = 2018,
            sp_user_id = ''42'', sp_level = ''free'', sp_song_id = ''S1'', sp_artist_id = ''A1'',
            sp_session_id = 7, sp_location = ''NY'', sp_user_agent = ''UA1''\<rparr>])"
proof -
  let ?P = "process_log_data spark_helix ''s3a://udacity-dend/'' ''s3a://dend-cda/output/'' []"
  let ?from = "songplays_from 0 (\<lambda>r. 0) (log_df_dt spark_helix ''s3a://udacity-dend/'') catalog_helix"
  have m1: "play_helix \<in> set (log_df spark_helix ''s3a://udacity-dend/'')"
    and m2: "play_mismatch \<in> set (log_df spark_helix ''s3a://udacity-dend/'')"
    by (simp_all add: log_df_spark_helix)
  have tz: "timeZone spark_helix = 0" and pt: "partition_of spark_helix = (\<lambda>r. 0)"
    by (simp_all add: spark_helix_def)
  have t: "ts play_helix = 1541121934796" by (simp add: play_helix_def)
  have cal: "month (to_date 0 1541121934796000) = 11" "year_of (to_date 0 1541121934796000) = 2018"
    by code_simp+
  have none: "\<forall>s\<in>set catalog_helix. \<not> (\<exists>a b. song play_mismatch = Some a \<and> title s = Some a
                                   \<and> artist play_mismatch = Some b \<and> artist_name s = Some b)"
    by (simp add: catalog_helix_def play_mismatch_def play_helix_def)
  have one: "song play_helix = Some ''Helix'' \<and> artist play_helix = Some ''Orbit''
     \<and> filter (\<lambda>s. title s = Some ''Helix'' \<and> artist_name s = Some ''Orbit'') catalog_helix
         = [hd catalog_helix]"
    by (simp add: catalog_helix_def play_helix_def)
  from songplays_inner_join [OF process_log_data_spark_helix m2] none
  have a: "?from (withColumn_ts_dt 0 play_mismatch) = []"
    unfolding read_song_json_spark_helix tz pt by blast
  from songplays_inner_join [OF process_log_data_spark_helix m1,
      where a = "''Helix''" and b = "''Orbit''" and s = "hd catalog_helix"] one
  obtain rows i where w: "w_data (last (fst ?P)) = Songplays rows"
    and ms: "mset rows = mset (concat (map ?from (remdups (log_df_dt spark_helix ''s3a://udacity-dend/''))))"
    and b0: "?from (withColumn_ts_dt 0 play_helix)
        = [\<lparr>sp_songplay_id = i,
            sp_start_time = to_timestamp (divide_long (ts play_helix) 1000),
            sp_month = month (to_date 0 (to_timestamp (divide_long (ts play_helix) 1000))),
            sp_year = year_of (to_date 0 (to_timestamp (divide_long (ts play_helix) 1000))),
            sp_user_id = userId play_helix, sp_level = level play_helix,
            sp_song_id = song_id (hd catalog_helix), sp_artist_id = artist_id (hd catalog_helix),
            sp_session_id = sessionId play_helix, sp_location = location play_helix,
            sp_user_agent = userAgent play_helix\<rparr>]"
    unfolding read_song_json_spark_helix tz pt by blast
  from b0 have b: "?from (withColumn_ts_dt 0 play_helix)
        = [\<lparr>sp_songplay_id = i, sp_start_time = 1541121934796000,
            sp_month = 11, sp_year = 2018,
            sp_user_id = ''42'', sp_level = ''free'', sp_song_id = ''S1'', sp_artist_id = ''A1'',
            sp_session_id = 7, sp_location = ''NY'', sp_user_agent = ''UA1''\<rparr>]"
    unfolding t timestamp_helix cal by (simp add: play_helix_def catalog_helix_def)
  from ms have "mset rows = mset (?from (withColumn_ts_dt 0 play_helix))"
    unfolding remdups_log_df_dt_spark_helix by (simp add: a)
  then have "rows = [\<lparr>sp_songplay_id = i, sp_start_time = 1541121934796000,
            sp_month = 11, sp_year = 2018,
            sp_user_id = ''42'', sp_level = ''free'', sp_song_id = ''S1'', sp_artist_id = ''A1'',
            sp_session_id = 7, sp_location = ''NY'', sp_user_agent = ''UA1''\<rparr>]"
    unfolding b by simp
  with w have "\<exists>i. w_data (last (fst ?P)) = Songplays
           [\<lparr>sp_songplay_id = i, sp_start_time = 1541121934796000,
            sp_month = 11, sp_year = 2018,
            sp_user_id = ''42'', sp_level = ''free'', sp_song_id = ''S1'', sp_artist_id = ''A1'',
            sp_session_id = 7, sp_location = ''NY'', sp_user_agent = ''UA1''\<rparr>]"
    by blast
  with process_log_data_spark_helix log_df_spark_helix a show ?thesis by blast
qed

lemma song_ids_from_log_row:
  assumes "l \<in> set df"
  shows "sp_song_id ` set (songplays_from tz part df song_df l)
     = song_id ` {s \<in> set song_df. join_condition l s = Some True}"
proof -
  let ?F = "filter (\<lambda>(i, l', s). l' = l) (songplay_with_id part df song_df)"
  have "sp_song_id ` set (songplays_from tz part df song_df l)
      = (\<lambda>x. song_id (snd x)) ` set (map snd ?F)"
    by (simp add: songplays_from_def selectExpr_songplay_def image_image case_prod_unfold)
  also have "\<dots> = (\<lambda>x. song_id (snd x)) ` Pair l ` {s \<in> set song_df. join_condition l s = Some True}"
    using assms rows_from_log_row [of l part df song_df] by simp
  also have "\<dots> = song_id ` {s \<in> set song_df. join_condition l s = Some True}"
    by (simp add: image_image)
  finally show ?thesis .
qed

text \<open>
  C9. When process_log_data completes, the songplays table it has written is joined with
  the catalog as the song files give it, not with the deduplicated songs table. The table
  consists, row for row, of the rows that come from each retained event, and when the
  catalog records that match a retained event (same title, same artist name) have pairwise
  different song_ids, the event has one row for each of them: as many rows as matching
  records, carrying exactly their song_ids.
\<close>

theorem songplays_row_per_catalog_match:
  assumes "snd (process_log_data spark input_data output_data out) = None"
    and "e \<in> set (log_df spark input_data)" and "song e = Some a" and "artist e = Some b"
    and "distinct (map song_id (filter (\<lambda>s. title s = Some a \<and> artist_name s = Some b)
           (read_song_json spark (input_data @ ''song_data/A/A/*/*.json''))))"
  shows "\<exists>rows. w_data (last (fst (process_log_data spark input_data output_data out))) = Songplays rows
       \<and> mset rows
           = mset (concat (map (songplays_from (timeZone spark) (partition_of spark)
                                  (log_df_dt spark input_data)
                                  (read_song_json spark (input_data @ ''song_data/A/A/*/*.json'')))
                               (remdups (log_df_dt spark input_data))))
       \<and> length (songplays_from (timeZone spark) (partition_of spark) (log_df_dt spark input_data)
                   (read_song_json spark (input_data @ ''song_data/A/A/*/*.json''))
                   (withColumn_ts_dt (timeZone spark) e))
           = length (filter (\<lambda>s. title s = Some a \<and> artist_name s = Some b)
                       (read_song_json spark (input_data @ ''song_data/A/A/*/*.json'')))
       \<and> sp_song_id ` set (songplays_from (timeZone spark) (partition_of spark)
                   (log_df_dt spark input_data)
                   (read_song_json spark (input_data @ ''song_data/A/A/*/*.json''))
                   (withColumn_ts_dt (timeZone spark) e))
           = song_id ` set (filter (\<lambda>s. title s = Some a \<and> artist_name s = Some b)
                       (read_song_json spark (input_data @ ''song_data/A/A/*/*.json'')))"
proof -
  let ?tz = "timeZone spark"
  let ?part = "partition_of spark"
  let ?df = "log_df_dt spark input_data"
  let ?l = "withColumn_ts_dt ?tz e"
  let ?cat = "read_song_json spark (input_data @ ''song_data/A/A/*/*.json'')"
  let ?m = "filter (\<lambda>s. title s = Some a \<and> artist_name s = Some b) ?cat"
  have w: "w_data (last (fst (process_log_data spark input_data output_data out)))
      = Songplays (songplay_table ?tz ?part ?df ?cat)"
    using assms(1) by (rule process_log_data_completed)
  have m: "mset (songplay_table ?tz ?part ?df ?cat)
      = mset (concat (map (songplays_from ?tz ?part ?df ?cat) (remdups ?df)))"
    by (rule songplay_table_by_event)
  from assms(2) have mem: "?l \<in> set ?df"
    by (simp add: log_df_dt_def)
  from assms(3,4) have set_eq: "{s \<in> set ?cat. join_condition ?l s = Some True} = set ?m"
    by (auto simp: join_condition_iff withColumn_ts_dt_sel)
  from assms(5) have "distinct ?m" by (simp add: distinct_map)
  then have "card (set ?m) = length ?m" by (rule distinct_card)
  with length_songplays_from [OF mem, of ?tz ?part ?cat] set_eq
  have l: "length (songplays_from ?tz ?part ?df ?cat ?l) = length ?m"
    by simp
  from song_ids_from_log_row [OF mem, of ?tz ?part ?cat] set_eq
  have i: "sp_song_id ` set (songplays_from ?tz ?part ?df ?cat ?l) = song_id ` set ?m" by simp
  from w m l i show ?thesis by blast
qed


lemma log_df_spark_reissue:
  "log_df spark_reissue ''s3a://udacity-dend/'' = [play_helix, play_mismatch]"
  by (simp add: log_df_def spark_reissue_def spark_helix_def sql_filter_def sql_eq_def
      play_helix_def play_mismatch_def)

lemma read_song_json_spark_reissue:
  "read_song_json spark_reissue (''s3a://udacity-dend/'' @ ''song_data/A/A/*/*.json'') = catalog_reissue"
  by (simp add: spark_reissue_def)

lemma process_log_data_spark_reissue:
  "snd (process_log_data spark_reissue ''s3a://udacity-dend/'' ''s3a://dend-cda/output/'' []) = None"
proof -
  have h: "\<forall>p. \<not> unwritable spark_reissue p" by (simp add: spark_reissue_def spark_helix_def)
  have d: "dropWhile (\<lambda>w. \<not> unwritable spark_reissue (w_path w))
             (log_writes spark_reissue ''s3a://udacity-dend/'' ''s3a://dend-cda/output/'') = []"
    using h by simp
  show ?thesis
    unfolding process_log_data_write_all write_all_takeWhile d by simp
qed

lemma remdups_log_df_dt_spark_reissue:
  "remdups (log_df_dt spark_reissue ''s3a://udacity-dend/'')
     = [withColumn_ts_dt 0 play_helix, withColumn_ts_dt 0 play_mismatch]"
proof -
  have "artist (withColumn_ts_dt 0 play_helix) \<noteq> artist (withColumn_ts_dt 0 play_mismatch)"
    by (simp add: withColumn_ts_dt_sel play_helix_def play_mismatch_def)
  then have "withColumn_ts_dt 0 play_helix \<noteq> withColumn_ts_dt 0 play_mismatch" by auto
  moreover have "timeZone spark_reissue = 0" by (simp add: spark_reissue_def spark_helix_def)
  ultimately show ?thesis
    by (simp add: log_df_dt_def log_df_spark_reissue)
qed

theorem songplays_row_per_catalog_match_witness:
  "snd (process_log_data spark_reissue ''s3a://udacity-dend/'' ''s3a://dend-cda/output/'' []) = None
   \<and> play_helix \<in> set (log_df spark_reissue ''s3a://udacity-dend/'')
   \<and> read_song_json spark_reissue (''s3a://udacity-dend/'' @ ''song_data/A/A/*/*.json'') = catalog_reissue
   \<and> (\<exists>rows. w_data (last (fst (process_log_data spark_reissue ''s3a://udacity-dend/''
                                  ''s3a://dend-cda/output/'' []))) = Songplays rows
         \<and> length rows = 2 \<and> sp_song_id ` set rows = {''S1'', ''S2''})"
proof -
  let ?P = "process_log_data spark_reissue ''s3a://udacity-dend/'' ''s3a://dend-cda/output/'' []"
  let ?from = "songplays_from 0 (\<lambda>r. 0) (log_df_dt spark_reissue ''s3a://udacity-dend/'') catalog_reissue"
  have m: "play_helix \<in> set (log_df spark_reissue ''s3a://udacity-dend/'')"
    by (simp add: log_df_spark_reissue)
  have s: "song play_helix = Some ''Helix''" and a: "artist play_helix = Some ''Orbit''"
    by (simp_all add: play_helix_def)
  have d: "distinct (map song_id (filter (\<lambda>s. title s = Some ''Helix'' \<and> artist_name s = Some ''Orbit'')
           (read_song_json spark_reissue (''s3a://udacity-dend/'' @ ''song_data/A/A/*/*.json''))))"
    by (simp add: spark_reissue_def catalog_reissue_def)
  have tz: "timeZone spark_reissue = 0" and pt: "partition_of spark_reissue = (\<lambda>r. 0)"
    by (simp_all add: spark_reissue_def spark_helix_def)
  have f: "filter (\<lambda>s. title s = Some ''Helix'' \<and> artist_name s = Some ''Orbit'') catalog_reissue
      = catalog_reissue" by (simp add: catalog_reissue_def)
  have l: "length catalog_reissue = 2" and i: "song_id ` set catalog_reissue = {''S1'', ''S2''}"
    by (simp_all add: catalog_reissue_def)
  have "\<forall>s\<in>set catalog_reissue. join_condition (withColumn_ts_dt 0 play_mismatch) s \<noteq> Some True"
    by (simp add: join_condition_iff withColumn_ts_dt_sel catalog_reissue_def play_mismatch_def
        play_helix_def)
  then have none: "?from (withColumn_ts_dt 0 play_mismatch) = []"
    by (rule songplays_from_none)
  from songplays_row_per_catalog_match [OF process_log_data_spark_reissue m s a d]
  obtain rows where w: "w_data (last (fst ?P)) = Songplays rows"
    and ms: "mset rows = mset (concat (map ?from (remdups (log_df_dt spark_reissue ''s3a://udacity-dend/''))))"
    and len: "length (?from (withColumn_ts_dt 0 play_helix)) = 2"
    and ids: "sp_song_id ` set (?from (withColumn_ts_dt 0 play_helix)) = {''S1'', ''S2''}"
    unfolding read_song_json_spark_reissue tz pt f l i by blast
  from ms have e: "mset rows = mset (?from (withColumn_ts_dt 0 play_helix))"
    unfolding remdups_log_df_dt_spark_reissue by (simp add: none)
  from e have "length rows = length (?from (withColumn_ts_dt 0 play_helix))"
    by (rule mset_eq_length)
  moreover from e have "set rows = set (?from (withColumn_ts_dt 0 play_helix))"
    by (rule mset_eq_setD)
  ultimately have "length rows = 2 \<and> sp_song_id ` set rows = {''S1'', ''S2''}"
    using len ids by simp
  with w have "\<exists>rows. w_data (last (fst ?P)) = Songplays rows
         \<and> length rows = 2 \<and> sp_song_id ` set rows = {''S1'', ''S2''}"
    by blast
  with process_log_data_spark_reissue m read_song_json_spark_reissue show ?thesis by blast
qed

subsection \<open>The surrogate key\<close>

lemma mid_of_nat: "monotonically_increasing_id p i = word_of_nat (p * 2 ^ 33 + i)"
  by (simp add: monotonically_increasing_id_def push_bit_eq_mult)

lemma unat_mid:
  assumes "p < 2 ^ 31" and "i < 2 ^ 33"
  shows "unat (monotonically_increasing_id p i) = p * 2 ^ 33 + i"
proof -
  from assms have "p * 2 ^ 33 + i < (2 ^ 64 :: nat)" by simp
  then have "(p * 2 ^ 33 + i) mod 2 ^ LENGTH(64) = p * 2 ^ 33 + i" by simp
  then show ?thesis unfolding mid_of_nat by (simp only: unat_of_nat)
qed

lemma mid_inj:
  assumes "p < 2 ^ 31" "i < 2 ^ 33" "q < 2 ^ 31" "j < 2 ^ 33"
    and "monotonically_increasing_id p i = monotonically_increasing_id q j"
  shows "p = q \<and> i = j"
proof -
  from assms(5) have "unat (monotonically_increasing_id p i) = unat (monotonically_increasing_id q j)"
    by simp
  with assms(1-4) have e: "p * 2 ^ 33 + i = q * 2 ^ 33 + j" by (simp only: unat_mid)
  then have "(p * 2 ^ 33 + i) mod 2 ^ 33 = (q * 2 ^ 33 + j) mod 2 ^ 33" by simp
  with assms(2,4) have "i = j" by simp
  with e show ?thesis by simp
qed


lemma shift_mod_int:
  fixes n :: int
  assumes "0 \<le> n" and "n < 2 ^ 64"
  shows "(n + 2 ^ 63) mod 2 ^ 64 - 2 ^ 63 = (if n < 2 ^ 63 then n else n - 2 ^ 64)"
proof (cases "n < 2 ^ 63")
  case True
  with assms have "(n + 2 ^ 63) mod 2 ^ 64 = n + 2 ^ 63"
    by (intro mod_pos_pos_trivial) simp_all
  with True show ?thesis by simp
next
  case False
  with assms have a: "(n - 2 ^ 63) mod 2 ^ 64 = n - 2 ^ 63"
    by (intro mod_pos_pos_trivial) simp_all
  have "n + 2 ^ 63 = (n - 2 ^ 63) + 2 ^ 64" by simp
  then have "(n + 2 ^ 63) mod 2 ^ 64 = (n - 2 ^ 63) mod 2 ^ 64"
    by (simp only: mod_add_self2)
  with a False show ?thesis by simp
qed

lemma sint_64:
  "sint (w :: 64 word) = (if uint w < 2 ^ 63 then uint w else uint w - 2 ^ 64)"
proof -
  have lt: "uint w < 2 ^ 64"
    using uint_lt2p [of w] by simp
  have "sint w = signed_take_bit 63 (uint w)"
    by (simp add: sint_uint)
  also have "\<dots> = (uint w + 2 ^ 63) mod 2 ^ 64 - 2 ^ 63"
    by (simp add: signed_take_bit_eq_take_bit_shift take_bit_eq_mod)
  also have "\<dots> = (if uint w < 2 ^ 63 then uint w else uint w - 2 ^ 64)"
    using lt by (intro shift_mod_int) simp_all
  finally show ?thesis .
qed

lemma uint_mid:
  assumes "p < 2 ^ 31" and "i < 2 ^ 33"
  shows "uint (monotonically_increasing_id p i) = int (p * 2 ^ 33 + i)"
  using unat_mid [OF assms] by (simp only: uint_nat)

lemma sint_mid_mono:
  assumes "p < 2 ^ 31" and "j < 2 ^ 33" and "i < j"
  shows "sint (monotonically_increasing_id p i) < sint (monotonically_increasing_id p j)"
proof -
  from assms have i: "i < 2 ^ 33" by simp
  have ui: "uint (monotonically_increasing_id p i) = int (p * 2 ^ 33 + i)"
    using assms(1) i by (rule uint_mid)
  have uj: "uint (monotonically_increasing_id p j) = int (p * 2 ^ 33 + j)"
    using assms(1,2) by (rule uint_mid)
  show ?thesis
  proof (cases "p < 2 ^ 30")
    case True
    with i assms(2) have "int (p * 2 ^ 33 + i) < 2 ^ 63" and "int (p * 2 ^ 33 + j) < 2 ^ 63"
      by simp_all
    with assms(3) show ?thesis unfolding sint_64 ui uj by simp
  next
    case False
    then have "\<not> int (p * 2 ^ 33 + i) < 2 ^ 63" and "\<not> int (p * 2 ^ 33 + j) < 2 ^ 63"
      by simp_all
    with assms(3) show ?thesis unfolding sint_64 ui uj by simp
  qed
qed


lemma map_fst_withColumn_id:
  "map fst (withColumn_id part df)
     = map (\<lambda>(p, i). monotonically_increasing_id p i)
         (concat (map (\<lambda>p. map (Pair p) [0..<length (filter (\<lambda>r. part r = p) df)])
                      (remdups (map part df))))"
proof -
  have "map fst (map (\<lambda>(i, r). (monotonically_increasing_id p i, r)) (enumerate 0 xs))
      = map (\<lambda>(p, i). monotonically_increasing_id p i) (map (Pair p) [0..<length xs])"
    for p and xs :: "'a list"
    by (simp add: case_prod_unfold comp_def map_fst_enumerate flip: map_map [of _ fst, unfolded comp_def])
  then show ?thesis
    by (simp add: withColumn_id_def map_concat comp_def)
qed

lemma distinct_partition_positions:
  "distinct ps \<Longrightarrow> distinct (concat (map (\<lambda>p. map (Pair p) [0..<n p]) ps))"
  by (induction ps) (auto simp: distinct_map inj_on_def)

lemma distinct_ids_withColumn_id:
  assumes "\<forall>r\<in>set df. part r < 2 ^ 31"
    and "\<forall>p. length (filter (\<lambda>r. part r = p) df) \<le> 2 ^ 33"
  shows "distinct (map fst (withColumn_id part df))"
proof -
  let ?PI = "concat (map (\<lambda>p. map (Pair p) [0..<length (filter (\<lambda>r. part r = p) df)])
                      (remdups (map part df)))"
  have bounds: "p < 2 ^ 31 \<and> i < 2 ^ 33" if "(p, i) \<in> set ?PI" for p i
  proof -
    from that have "p \<in> part ` set df" and "i < length (filter (\<lambda>r. part r = p) df)" by auto
    with assms show ?thesis by (auto simp: less_le_trans)
  qed
  have "inj_on (\<lambda>(p, i). monotonically_increasing_id p i) (set ?PI)"
  proof (rule inj_onI)
    fix x y assume x: "x \<in> set ?PI" and y: "y \<in> set ?PI"
      and e: "(case x of (p, i) \<Rightarrow> monotonically_increasing_id p i)
            = (case y of (p, i) \<Rightarrow> monotonically_increasing_id p i)"
    obtain p i where xp: "x = (p, i)" by (cases x)
    obtain q j where yq: "y = (q, j)" by (cases y)
    from x xp bounds have bp: "p < 2 ^ 31" "i < 2 ^ 33" by blast+
    from y yq bounds have bq: "q < 2 ^ 31" "j < 2 ^ 33" by blast+
    from e xp yq have "monotonically_increasing_id p i = monotonically_increasing_id q j" by simp
    from mid_inj [OF bp bq this] xp yq show "x = y" by simp
  qed
  moreover have "distinct ?PI" by (rule distinct_partition_positions) simp
  ultimately show ?thesis
    unfolding map_fst_withColumn_id by (simp only: distinct_map)
qed

lemma filter_partition_withColumn_id:
  "filter (\<lambda>(i, r). part r = p) (withColumn_id part df)
     = map (\<lambda>(i, r). (monotonically_increasing_id p i, r)) (enumerate 0 (filter (\<lambda>r. part r = p) df))"
proof -
  let ?G = "\<lambda>q. map (\<lambda>(i, r). (monotonically_increasing_id q i, r)) (enumerate 0 (filter (\<lambda>r. part r = q) df))"
  have own: "filter (\<lambda>(i, r). part r = p) (?G q) = (if q = p then ?G p else [])" for q
  proof -
    have "map snd (?G q) = filter (\<lambda>r. part r = q) df"
      by (simp add: case_prod_unfold comp_def map_snd_enumerate)
    then have "set (map snd (?G q)) = set (filter (\<lambda>r. part r = q) df)"
      by (rule arg_cong)
    then have "snd ` set (?G q) \<subseteq> {r. part r = q}"
      by (simp only: set_map set_filter) blast
    then have "\<forall>x\<in>set (?G q). part (snd x) = q"
      by blast
    then show ?thesis
      by (auto simp: filter_empty_conv case_prod_unfold intro!: filter_True)
  qed
  have step: "distinct ps \<Longrightarrow>
      filter (\<lambda>(i, r). part r = p) (concat (map ?G ps)) = (if p \<in> set ps then ?G p else [])" for ps
  proof (induction ps)
    case Nil
    then show ?case by simp
  next
    case (Cons q ps)
    then show ?case by (auto simp: own simp del: map_map)
  qed
  have "p \<notin> set (remdups (map part df)) \<Longrightarrow> ?G p = []"
    by (auto simp: filter_empty_conv enumerate_eq_zip)
  with step [of "remdups (map part df)"] show ?thesis
    unfolding withColumn_id_def by (cases "p \<in> set (remdups (map part df))") simp_all
qed

lemma partition_ids_increasing:
  assumes "\<forall>r\<in>set df. part r < 2 ^ 31"
    and "\<forall>p. length (filter (\<lambda>r. part r = p) df) \<le> 2 ^ 33"
  shows "sorted_wrt (\<lambda>a b. sint a < sint b)
           (map fst (filter (\<lambda>(i, r). part r = p) (withColumn_id part df)))"
proof -
  let ?n = "length (filter (\<lambda>r. part r = p) df)"
  have eq: "map fst (filter (\<lambda>(i, r). part r = p) (withColumn_id part df))
      = map (monotonically_increasing_id p) [0..<?n]"
    unfolding filter_partition_withColumn_id
    by (simp add: case_prod_unfold comp_def flip: map_map [of _ fst, unfolded comp_def])
  show ?thesis
  proof (cases "?n = 0")
    case True
    then show ?thesis unfolding eq by simp
  next
    case False
    then obtain r where "r \<in> set df" and "part r = p"
      by (auto simp: filter_empty_conv)
    with assms(1) have p: "p < 2 ^ 31" by blast
    from assms(2) have n: "?n \<le> 2 ^ 33" by blast
    have "sorted_wrt (\<lambda>i j. sint (monotonically_increasing_id p i) < sint (monotonically_increasing_id p j)) [0..<?n]"
    proof (rule sorted_wrt_mono_rel [where P = "(<)"])
      fix i j assume "i \<in> set [0..<?n]" "j \<in> set [0..<?n]" "i < j"
      with n have "j < 2 ^ 33" by simp
      from sint_mid_mono [OF p this \<open>i < j\<close>]
      show "sint (monotonically_increasing_id p i) < sint (monotonically_increasing_id p j)" .
    next
      show "sorted_wrt (<) [0..<?n]" by simp
    qed
    then show ?thesis unfolding eq by (simp only: sorted_wrt_map)
  qed
qed


text \<open>
  C5. Within Spark's documented limits (partition numbers below \<open>2^31\<close>, at most \<open>2^33\<close> rows
  in a partition), the songplay_ids of the table are pairwise different; there is one id per
  distinct joined row, so they are given after the full-row \<open>distinct()\<close>; and within each
  partition they increase, read as signed 64-bit values, along the partition's sequence.
  Nothing orders or packs them across partitions: the table of the witness has the ids
  \<open>2^33\<close> and 0, in that order.
\<close>

theorem songplay_id_unique:
  assumes "\<forall>r\<in>set (joined_df df song_df). part r < 2 ^ 31"
    and "\<forall>p. length (filter (\<lambda>r. part r = p) (distinct_rows (joined_df df song_df))) \<le> 2 ^ 33"
  shows "distinct (map sp_songplay_id (songplay_table tz part df song_df))
       \<and> length (songplay_table tz part df song_df) = card (set (joined_df df song_df))
       \<and> (\<forall>p. sorted_wrt (\<lambda>a b. sint a < sint b)
                 (map fst (filter (\<lambda>(i, r). part r = p) (songplay_with_id part df song_df))))"
proof (intro conjI allI)
  let ?D = "distinct_rows (joined_df df song_df)"
  from assms(1) have b: "\<forall>r\<in>set ?D. part r < 2 ^ 31"
    by (simp add: distinct_rows_def)
  have "map sp_songplay_id (songplay_table tz part df song_df) = map fst (songplay_with_id part df song_df)"
    by (simp add: songplay_table_def selectExpr_songplay_def case_prod_unfold comp_def)
  moreover have "distinct (map fst (withColumn_id part ?D))"
    using b assms(2) by (rule distinct_ids_withColumn_id)
  ultimately show "distinct (map sp_songplay_id (songplay_table tz part df song_df))"
    by (simp only: songplay_with_id_def)
next
  have "length (songplay_table tz part df song_df) = length (remdups (joined_df df song_df))"
    by (simp add: songplay_table_def songplay_with_id_def length_withColumn_id distinct_rows_def)
  also have "\<dots> = card (set (joined_df df song_df))"
    by (rule length_remdups_card_conv)
  finally show "length (songplay_table tz part df song_df) = card (set (joined_df df song_df))" .
next
  fix p
  let ?D = "distinct_rows (joined_df df song_df)"
  from assms(1) have b: "\<forall>r\<in>set ?D. part r < 2 ^ 31"
    by (simp add: distinct_rows_def)
  from partition_ids_increasing [OF b assms(2), of p]
  show "sorted_wrt (\<lambda>a b. sint a < sint b)
          (map fst (filter (\<lambda>(i, r). part r = p) (songplay_with_id part df song_df)))"
    by (simp only: songplay_with_id_def)
qed

lemma joined_two_partitions:
  "joined_df (log_df_dt spark_two_partitions ''s3a://udacity-dend/'') catalog_reissue
     = [(withColumn_ts_dt 0 play_helix, catalog_reissue ! 0), (withColumn_ts_dt 0 play_helix, catalog_reissue ! 1)]"
  by (simp add: joined_df_def inner_join_def log_df_dt_def log_df_def spark_two_partitions_def
      spark_reissue_def spark_helix_def sql_filter_def sql_eq_def sql_and_def join_condition_def
      withColumn_ts_dt_sel play_helix_def play_mismatch_def catalog_reissue_def)

lemma ids_two_partitions:
  "map sp_songplay_id (songplay_table 0 (partition_of spark_two_partitions)
       (log_df_dt spark_two_partitions ''s3a://udacity-dend/'') catalog_reissue) = [8589934592, 0]"
proof -
  have p: "partition_of spark_two_partitions = (\<lambda>(l, s). if song_id s = ''S1'' then 1 else 0)"
    by (simp add: spark_two_partitions_def)
  have d: "distinct_rows (joined_df (log_df_dt spark_two_partitions ''s3a://udacity-dend/'') catalog_reissue)
      = [(withColumn_ts_dt 0 play_helix, catalog_reissue ! 0), (withColumn_ts_dt 0 play_helix, catalog_reissue ! 1)]"
    unfolding joined_two_partitions distinct_rows_def by (simp add: catalog_reissue_def)
  show ?thesis
    unfolding songplay_table_def songplay_with_id_def d p
    by (simp add: withColumn_id_def monotonically_increasing_id_def selectExpr_songplay_def
        catalog_reissue_def enumerate_eq_zip)
qed

theorem songplay_id_unique_witness:
  "distinct (map sp_songplay_id (songplay_table 0 (partition_of spark_two_partitions)
       (log_df_dt spark_two_partitions ''s3a://udacity-dend/'') catalog_reissue))
   \<and> length (songplay_table 0 (partition_of spark_two_partitions)
       (log_df_dt spark_two_partitions ''s3a://udacity-dend/'') catalog_reissue) = 2
   \<and> sorted_wrt (\<lambda>a b. sint a < sint b)
        (map fst (filter (\<lambda>(i, r). partition_of spark_two_partitions r = 1)
           (songplay_with_id (partition_of spark_two_partitions)
              (log_df_dt spark_two_partitions ''s3a://udacity-dend/'') catalog_reissue)))
   \<and> map sp_songplay_id (songplay_table 0 (partition_of spark_two_partitions)
       (log_df_dt spark_two_partitions ''s3a://udacity-dend/'') catalog_reissue) = [8589934592, 0]"
proof -
  let ?J = "joined_df (log_df_dt spark_two_partitions ''s3a://udacity-dend/'') catalog_reissue"
  let ?part = "partition_of spark_two_partitions"
  have p: "?part = (\<lambda>(l, s). if song_id s = ''S1'' then 1 else 0)"
    by (simp add: spark_two_partitions_def)
  have h1: "\<forall>r\<in>set ?J. ?part r < 2 ^ 31"
    unfolding p by (simp add: case_prod_unfold)
  have l2: "length (distinct_rows ?J) \<le> 2"
    unfolding distinct_rows_def joined_two_partitions by (simp add: catalog_reissue_def)
  have h2: "\<forall>q. length (filter (\<lambda>r. ?part r = q) (distinct_rows ?J)) \<le> 2 ^ 33"
  proof
    fix q
    have "length (filter (\<lambda>r. ?part r = q) (distinct_rows ?J)) \<le> length (distinct_rows ?J)"
      by (rule length_filter_le)
    also note l2
    also have "(2::nat) \<le> 2 ^ 33" by simp
    finally show "length (filter (\<lambda>r. ?part r = q) (distinct_rows ?J)) \<le> 2 ^ 33" .
  qed
  have c: "card (set ?J) = 2"
    unfolding joined_two_partitions by (simp add: catalog_reissue_def)
  from songplay_id_unique [OF h1 h2, of 0] c ids_two_partitions show ?thesis by simp
qed

subsection \<open>The filter and the time table\<close>

lemma log_df_eq:
  "log_df spark input_data
     = filter (\<lambda>e. page e = Some ''NextSong'') (read_log_json spark (input_data @ ''log_data/*/*/*.json''))"
proof -
  have "(sql_eq p (Some ''NextSong'') = Some True) = (p = Some ''NextSong'')" for p :: "string option"
    by (cases p) (simp_all add: sql_eq_def)
  then show ?thesis by (simp add: log_df_def sql_filter_def)
qed





text \<open>
  C3. An event whose page is not \<open>NextSong\<close> leaves no trace: with the event taken out of
  the log, the users, time and songplays tables are the same, and so is all that
  \<open>process_log_data\<close> writes.
\<close>

theorem non_play_events_leave_no_trace:
  assumes "read_log_json spark (input_data @ ''log_data/*/*/*.json'') = xs @ e # ys"
    and "page e \<noteq> Some ''NextSong''"
  shows "users_table (keep_user spark) (log_df spark input_data)
           = users_table (keep_user spark) (log_df (spark\<lparr>read_log_json := \<lambda>p. xs @ ys\<rparr>) input_data)
       \<and> time_table (timeZone spark) (log_df_dt spark input_data)
           = time_table (timeZone spark) (log_df_dt (spark\<lparr>read_log_json := \<lambda>p. xs @ ys\<rparr>) input_data)
       \<and> songplay_table (timeZone spark) (partition_of spark) (log_df_dt spark input_data) song_df
           = songplay_table (timeZone spark) (partition_of spark)
               (log_df_dt (spark\<lparr>read_log_json := \<lambda>p. xs @ ys\<rparr>) input_data) song_df
       \<and> process_log_data spark input_data output_data out
           = process_log_data (spark\<lparr>read_log_json := \<lambda>p. xs @ ys\<rparr>) input_data output_data out"
proof -
  let ?spark' = "spark\<lparr>read_log_json := \<lambda>p. xs @ ys\<rparr>"
  from assms have a: "log_df ?spark' input_data = log_df spark input_data"
    by (simp add: log_df_eq)
  then have b: "log_df_dt ?spark' input_data = log_df_dt spark input_data"
    by (simp add: log_df_dt_def)
  have "process_log_data ?spark' input_data output_data out = process_log_data spark input_data output_data out"
    unfolding process_log_data_def a b by simp
  with a b show ?thesis by simp
qed


theorem non_play_events_leave_no_trace_witness:
  "page home_page \<noteq> Some ''NextSong''
   \<and> users_table (\<lambda>g. 0) (log_df spark_same_instant ''s3a://udacity-dend/'')
       = users_table (\<lambda>g. 0) (log_df (spark_same_instant\<lparr>read_log_json :=
            \<lambda>p. [play_helix] @ [play_helix\<lparr>userId := ''43'', sessionId := 8\<rparr>]\<rparr>) ''s3a://udacity-dend/'')
   \<and> time_table 0 (log_df_dt spark_same_instant ''s3a://udacity-dend/'')
       = time_table 0 (log_df_dt (spark_same_instant\<lparr>read_log_json :=
            \<lambda>p. [play_helix] @ [play_helix\<lparr>userId := ''43'', sessionId := 8\<rparr>]\<rparr>) ''s3a://udacity-dend/'')
   \<and> songplay_table 0 (\<lambda>r. 0) (log_df_dt spark_same_instant ''s3a://udacity-dend/'') catalog_helix
       = songplay_table 0 (\<lambda>r. 0) (log_df_dt (spark_same_instant\<lparr>read_log_json :=
            \<lambda>p. [play_helix] @ [play_helix\<lparr>userId := ''43'', sessionId := 8\<rparr>]\<rparr>) ''s3a://udacity-dend/'')
           catalog_helix
   \<and> process_log_data spark_same_instant ''s3a://udacity-dend/'' ''s3a://dend-cda/output/'' []
       = process_log_data (spark_same_instant\<lparr>read_log_json :=
            \<lambda>p. [play_helix] @ [play_helix\<lparr>userId := ''43'', sessionId := 8\<rparr>]\<rparr>)
           ''s3a://udacity-dend/'' ''s3a://dend-cda/output/'' []"
proof -
  have r: "read_log_json spark_same_instant (''s3a://udacity-dend/'' @ ''log_data/*/*/*.json'')
      = [play_helix] @ home_page # [play_helix\<lparr>userId := ''43'', sessionId := 8\<rparr>]"
    by (simp add: spark_same_instant_def)
  have h: "page home_page \<noteq> Some ''NextSong''"
    by (simp add: home_page_def)
  have k: "keep_user spark_same_instant = (\<lambda>g. 0)" "timeZone spark_same_instant = 0"
    "partition_of spark_same_instant = (\<lambda>r. 0)"
    by (simp_all add: spark_same_instant_def spark_helix_def)
  from non_play_events_leave_no_trace [OF r h, of catalog_helix "''s3a://dend-cda/output/''" "[]"] h
  show ?thesis unfolding k by blast
qed

subsection \<open>The derived time columns\<close>






subsection \<open>The writes of a run\<close>

lemma main_write_all: "main spark = write_all (unwritable spark) (tables_in_order spark) []"
  by (simp add: main_def Let_def tables_in_order_def write_all_append
      process_song_data_write_all process_log_data_write_all split: prod.splits option.splits)


lemma paths_in_order:
  "map w_path (tables_in_order spark) =
     [''s3a://dend-cda/output/songs_table/songs_table.parquet'',
      ''s3a://dend-cda/output/artists_table/artists_table.parquet'',
      ''s3a://dend-cda/output/users_table/users_table.parquet'',
      ''s3a://dend-cda/output/time_table/time.parquet'',
      ''s3a://dend-cda/output/songplays_table/songsplay.parquet'']"
  by (simp add: tables_in_order_def song_writes_def log_writes_def)

lemma names_in_order:
  "map (\<lambda>w. (table_name (w_data w), w_partitionBy w)) (tables_in_order spark) =
     [(''songs'', [''year'', ''artist_id'']), (''artists'', []), (''users'', []),
      (''time'', [''year'', ''month'']), (''songplays'', [''year'', ''month''])]"
  by (simp add: tables_in_order_def song_writes_def log_writes_def)

lemma main_all_written:
  assumes "\<forall>p. \<not> unwritable spark p"
  shows "main spark = (tables_in_order spark, None)"
proof -
  have t: "takeWhile (\<lambda>w. \<not> unwritable spark (w_path w)) (tables_in_order spark) = tables_in_order spark"
    using assms by simp
  have d: "dropWhile (\<lambda>w. \<not> unwritable spark (w_path w)) (tables_in_order spark) = []"
    using assms by simp
  show ?thesis unfolding main_write_all write_all_takeWhile t d by simp
qed

text \<open>
  C10. A run writes the tables in the order songs, artists, users, time, songplays, to five
  different destinations, and stops at the first write that fails: what has been written
  is exactly the tables before that one, each in full, and the error names its destination;
  no later table is written.
\<close>

theorem main_writes_in_order:
  "fst (main spark) = takeWhile (\<lambda>w. \<not> unwritable spark (w_path w)) (tables_in_order spark)
   \<and> snd (main spark) =
       (case dropWhile (\<lambda>w. \<not> unwritable spark (w_path w)) (tables_in_order spark) of
          [] \<Rightarrow> None | w # ws \<Rightarrow> Some (WriteError (w_path w)))
   \<and> map (\<lambda>w. table_name (w_data w)) (tables_in_order spark)
       = [''songs'', ''artists'', ''users'', ''time'', ''songplays'']
   \<and> distinct (map w_path (tables_in_order spark))"
proof (intro conjI)
  show "fst (main spark) = takeWhile (\<lambda>w. \<not> unwritable spark (w_path w)) (tables_in_order spark)"
    by (simp add: main_write_all write_all_takeWhile)
  show "snd (main spark) =
       (case dropWhile (\<lambda>w. \<not> unwritable spark (w_path w)) (tables_in_order spark) of
          [] \<Rightarrow> None | w # ws \<Rightarrow> Some (WriteError (w_path w)))"
    by (simp add: main_write_all write_all_takeWhile)
  show "map (\<lambda>w. table_name (w_data w)) (tables_in_order spark)
       = [''songs'', ''artists'', ''users'', ''time'', ''songplays'']"
    by (simp add: tables_in_order_def song_writes_def log_writes_def)
  show "distinct (map w_path (tables_in_order spark))"
    unfolding paths_in_order by simp
qed

theorem main_writes_in_order_witness:
  "map (\<lambda>w. table_name (w_data w)) (fst (main spark_time_unwritable)) = [''songs'', ''artists'', ''users'']
   \<and> snd (main spark_time_unwritable) = Some (WriteError ''s3a://dend-cda/output/time_table/time.parquet'')"
proof -
  let ?u = "\<lambda>w :: real written. \<not> unwritable spark_time_unwritable (w_path w)"
  have u: "unwritable spark_time_unwritable = (\<lambda>p. p = ''s3a://dend-cda/output/time_table/time.parquet'')"
    by (simp add: spark_time_unwritable_def)
  have t: "takeWhile ?u (tables_in_order spark_time_unwritable) = take 3 (tables_in_order spark_time_unwritable)"
    and d: "dropWhile ?u (tables_in_order spark_time_unwritable) = drop 3 (tables_in_order spark_time_unwritable)"
    unfolding u by (simp_all add: tables_in_order_def song_writes_def log_writes_def)
  have n: "map (\<lambda>w. table_name (w_data w)) (take 3 (tables_in_order spark_time_unwritable))
      = [''songs'', ''artists'', ''users'']"
    by (simp add: tables_in_order_def song_writes_def log_writes_def)
  have e: "(case drop 3 (tables_in_order spark_time_unwritable) of
          [] \<Rightarrow> None | w # ws \<Rightarrow> Some (WriteError (w_path w)))
      = Some (WriteError ''s3a://dend-cda/output/time_table/time.parquet'')"
    by (simp add: tables_in_order_def song_writes_def log_writes_def)
  from main_writes_in_order [of spark_time_unwritable] show ?thesis
    unfolding t d n e by (simp add: n)
qed

text \<open>
  C8. In a run in which every write succeeds, songs is partitioned by year and artist_id,
  artists and users are not partitioned, time and songplays are partitioned by year and
  month; and the month and year of a songplays row are those of the local date of its
  start_time.
\<close>

theorem partition_columns:
  assumes "\<forall>p. \<not> unwritable spark p"
  shows "map (\<lambda>w. (table_name (w_data w), w_partitionBy w)) (fst (main spark)) =
           [(''songs'', [''year'', ''artist_id'']), (''artists'', []), (''users'', []),
            (''time'', [''year'', ''month'']), (''songplays'', [''year'', ''month''])]
       \<and> (\<forall>r\<in>set (songplay_table tz part df song_df).
             sp_month r = month (to_date tz (sp_start_time r))
             \<and> sp_year r = year_of (to_date tz (sp_start_time r)))"
proof
  from main_all_written [OF assms] names_in_order [of spark]
  show "map (\<lambda>w. (table_name (w_data w), w_partitionBy w)) (fst (main spark)) =
           [(''songs'', [''year'', ''artist_id'']), (''artists'', []), (''users'', []),
            (''time'', [''year'', ''month'']), (''songplays'', [''year'', ''month''])]"
    by simp
  show "\<forall>r\<in>set (songplay_table tz part df song_df).
             sp_month r = month (to_date tz (sp_start_time r))
             \<and> sp_year r = year_of (to_date tz (sp_start_time r))"
    by (auto simp: songplay_table_def selectExpr_songplay_def)
qed

theorem partition_columns_witness:
  "map (\<lambda>w. (table_name (w_data w), w_partitionBy w)) (fst (main spark_helix)) =
           [(''songs'', [''year'', ''artist_id'']), (''artists'', []), (''users'', []),
            (''time'', [''year'', ''month'']), (''songplays'', [''year'', ''month''])]
   \<and> list_all (\<lambda>r. sp_month r = month (to_date 0 (sp_start_time r))
                    \<and> sp_year r = year_of (to_date 0 (sp_start_time r)))
        (songplay_table 0 (\<lambda>r. 0) (log_df_dt spark_helix ''s3a://udacity-dend/'') catalog_helix)
   \<and> length (songplay_table 0 (\<lambda>r. 0) (log_df_dt spark_helix ''s3a://udacity-dend/'') catalog_helix) = 1"
proof -
  have h: "\<forall>p. \<not> unwritable spark_helix p" by (simp add: spark_helix_def)
  have "joined_df (log_df_dt spark_helix ''s3a://udacity-dend/'') catalog_helix
      = [(withColumn_ts_dt 0 play_helix, catalog_helix ! 0)]"
    by (simp add: joined_df_def inner_join_def log_df_dt_def log_df_def spark_helix_def
        sql_filter_def sql_eq_def sql_and_def join_condition_def withColumn_ts_dt_sel play_helix_def
        play_mismatch_def catalog_helix_def)
  then have l: "length (songplay_table 0 (\<lambda>r. 0) (log_df_dt spark_helix ''s3a://udacity-dend/'') catalog_helix) = 1"
    by (simp add: songplay_table_def songplay_with_id_def length_withColumn_id distinct_rows_def)
  from partition_columns [OF h, of 0 "\<lambda>r. 0" "log_df_dt spark_helix ''s3a://udacity-dend/''" catalog_helix] l
  show ?thesis by (simp add: list_all_iff)
qed

text \<open>
  C7. Every write has the mode \<open>overwrite\<close>. The destinations of songs, artists and users
  follow the convention (the \<open>.parquet\<close> directory is named after the table's directory);
  those of time and songplays do not: \<open>time_table/time.parquet\<close> and
  \<open>songplays_table/songsplay.parquet\<close>.
\<close>

theorem paths_written:
  "map w_path (fst (main spark_helix)) =
     [''s3a://dend-cda/output/songs_table/songs_table.parquet'',
      ''s3a://dend-cda/output/artists_table/artists_table.parquet'',
      ''s3a://dend-cda/output/users_table/users_table.parquet'',
      ''s3a://dend-cda/output/time_table/time.parquet'',
      ''s3a://dend-cda/output/songplays_table/songsplay.parquet'']
   \<and> map (convention_path ''s3a://dend-cda/output/'')
         [''songs_table'', ''artists_table'', ''users_table'', ''time_table'', ''songplays_table''] =
     [''s3a://dend-cda/output/songs_table/songs_table.parquet'',
      ''s3a://dend-cda/output/artists_table/artists_table.parquet'',
      ''s3a://dend-cda/output/users_table/users_table.parquet'',
      ''s3a://dend-cda/output/time_table/time_table.parquet'',
      ''s3a://dend-cda/output/songplays_table/songplays_table.parquet'']
   \<and> map w_mode (fst (main spark_helix)) = replicate 5 ''overwrite''"
proof -
  have h: "\<forall>p. \<not> unwritable spark_helix p" by (simp add: spark_helix_def)
  have m: "fst (main spark_helix) = tables_in_order spark_helix"
    using main_all_written [OF h] by simp
  have "map w_mode (tables_in_order spark_helix) = replicate 5 ''overwrite''"
    by (simp add: tables_in_order_def song_writes_def log_writes_def numeral_eq_Suc)
  then show ?thesis
    unfolding m paths_in_order by (simp add: convention_path_def)
qed

subsection \<open>The calendar at known dates\<close>

lemma calendar_known_dates:
  "civil_from_days 0 = (1970, 1, 1)" "dayofweek 0 = 5" "weekofyear 0 = 1"
  "dayofweek 2 = 7" "dayofweek 3 = 1"
  "civil_from_days (-1) = (1969, 12, 31)"
  "civil_from_days 11016 = (2000, 2, 29)" "days_from_civil 2000 2 29 = 11016"
  "civil_from_days 17837 = (2018, 11, 2)" "dayofweek 17837 = 6" "weekofyear 17837 = 44"
  "weekofyear (days_from_civil 2021 1 3) = 53" "weekofyear (days_from_civil 2021 1 4) = 1"
  by code_simp+

end
